theory Spec2Isabelle
  imports Complex_Main "HOL-Library.AList"
begin

section \<open>Python values used by gnn/data/dataset.py\<close>

text \<open>
  Exceptions are values. \<open>KeyError\<close> is the LookupError-kind failure of a dictionary
  read, \<open>ValueError\<close> the failure of tuple unpacking and of \<open>float\<close>,
  \<open>IndexError\<close> an out-of-range list read, \<open>UnboundLocalError\<close> the read of a local
  variable that was never assigned.
\<close>

datatype error =
    KeyError
  | ValueError
  | IndexError
  | UnboundLocalError
  | NotImplementedError
  | TypeError
  | FileNotFoundError

subsection \<open>Dictionaries\<close>

text \<open>
  A Python \<open>dict\<close> is an association list in insertion order. \<open>d[k] = v\<close> replaces the
  value of a present key in place and appends an absent one, which is what
  \<open>AList.update\<close> does. Every dictionary of the program starts empty and is changed by
  \<open>dict_set\<close> only, so its keys are distinct and \<open>len(d)\<close> is the length of the list.
\<close>

type_synonym ('k, 'v) dict = "('k \<times> 'v) list"

definition dict_contains :: "('k, 'v) dict \<Rightarrow> 'k \<Rightarrow> bool" where
  "dict_contains d k = (map_of d k \<noteq> None)"

definition dict_get :: "('k, 'v) dict \<Rightarrow> 'k \<Rightarrow> error + 'v" where
  "dict_get d k = (case map_of d k of None \<Rightarrow> Inl KeyError | Some v \<Rightarrow> Inr v)"

definition dict_set :: "('k, 'v) dict \<Rightarrow> 'k \<Rightarrow> 'v \<Rightarrow> ('k, 'v) dict" where
  "dict_set d k v = AList.update k v d"

definition dict_len :: "('k, 'v) dict \<Rightarrow> nat" where
  "dict_len d = length d"

subsection \<open>Strings\<close>

text \<open>
  A \<open>str\<close> is a list of code points; the model covers the code points below 256, which
  \<open>char\<close> holds. \<open>py_isspace\<close> is the whitespace of \<open>str.split()\<close> and of the pattern
  \<open>\s\<close> in that range: U+0009 to U+000D, U+001C to U+0020, U+0085 and U+00A0.
\<close>

definition py_isspace :: "char \<Rightarrow> bool" where
  "py_isspace c =
     (let n = (of_char c :: nat)
      in (9 \<le> n \<and> n \<le> 13) \<or> (28 \<le> n \<and> n \<le> 32) \<or> n = 133 \<or> n = 160)"

text \<open>\<open>s.split()\<close>: the maximal runs of non-whitespace, in order. \<open>cur\<close> is the run being read.\<close>

fun split_from :: "string \<Rightarrow> string \<Rightarrow> string list" where
  "split_from cur [] = (if cur = [] then [] else [cur])"
| "split_from cur (c # cs) =
     (if py_isspace c
      then (if cur = [] then split_from [] cs else cur # split_from [] cs)
      else split_from (cur @ [c]) cs)"

definition py_split :: "string \<Rightarrow> string list" where
  "py_split s = split_from [] s"

text \<open>
  \<open>re.split(r"\s+", line, 1)\<close>: at most one split, at the leftmost whitespace run.
  A line without whitespace comes back whole, as a list of one element.
\<close>

definition re_split_ws_1 :: "string \<Rightarrow> string list" where
  "re_split_ws_1 line =
     (let head = takeWhile (\<lambda>c. \<not> py_isspace c) line;
          rest = dropWhile (\<lambda>c. \<not> py_isspace c) line
      in if rest = [] then [line] else [head, dropWhile py_isspace rest])"

text \<open>
  \<open>s.lower()\<close> on code points below 256: A to Z, and the capital letters U+00C0 to
  U+00DE but the multiplication sign U+00D7, move up by 32; every other one stays.
\<close>

definition py_lower_char :: "char \<Rightarrow> char" where
  "py_lower_char c =
     (let n = (of_char c :: nat)
      in if (65 \<le> n \<and> n \<le> 90) \<or> (192 \<le> n \<and> n \<le> 222 \<and> n \<noteq> 215)
         then char_of (n + 32) else c)"

definition py_lower :: "string \<Rightarrow> string" where
  "py_lower s = map py_lower_char s"

text \<open>The character class \<open>[a-zA-Z]\<close>, and \<open>punc_re.sub(" ", s)\<close> for \<open>punc_re = [^a-zA-Z]\<close>.\<close>

definition is_ascii_letter :: "char \<Rightarrow> bool" where
  "is_ascii_letter c =
     (let n = (of_char c :: nat) in (97 \<le> n \<and> n \<le> 122) \<or> (65 \<le> n \<and> n \<le> 90))"

definition punc_re_sub :: "string \<Rightarrow> string" where
  "punc_re_sub s = map (\<lambda>c. if is_ascii_letter c then c else CHR '' '') s"

section \<open>Tokenizer\<close>

text \<open>
  The three classes share the two dictionaries of \<open>Tokenizer.__init__\<close>; \<open>cls\<close> says
  which \<open>tokenize\<close> the object has. The base class raises \<open>NotImplementedError\<close>.
\<close>

datatype tokenizer_class = Tokenizer_base | WhiteSpaceTokenizer | EnglishWordTokenizer

record Tokenizer =
  cls :: tokenizer_class
  token_id_index_dict :: "(string, nat) dict"
  token_index_id_dict :: "(nat, string) dict"

definition Tokenizer_init :: "tokenizer_class \<Rightarrow> Tokenizer" where
  "Tokenizer_init c = \<lparr>cls = c, token_id_index_dict = [], token_index_id_dict = []\<rparr>"

definition num_tokens :: "Tokenizer \<Rightarrow> nat" where
  "num_tokens t = dict_len (token_id_index_dict t)"

text \<open>
  \<open>get_or_create_token_index\<close> returns the index and the tokenizer as the call leaves it.
  The membership test and the read of the first branch are one lookup.
\<close>

definition get_or_create_token_index :: "Tokenizer \<Rightarrow> string \<Rightarrow> nat \<times> Tokenizer" where
  "get_or_create_token_index t token_id =
     (case map_of (token_id_index_dict t) token_id of
        Some token_index \<Rightarrow> (token_index, t)
      | None \<Rightarrow>
          (let token_index = num_tokens t;
               t1 = t\<lparr>token_index_id_dict := dict_set (token_index_id_dict t) token_index token_id\<rparr>;
               t2 = t1\<lparr>token_id_index_dict := dict_set (token_id_index_dict t1) token_id token_index\<rparr>
           in (token_index, t2)))"

definition get_token_index :: "Tokenizer \<Rightarrow> string \<Rightarrow> error + nat" where
  "get_token_index t token_id = dict_get (token_id_index_dict t) token_id"

definition tokenize :: "Tokenizer \<Rightarrow> string \<Rightarrow> error + string list" where
  "tokenize t s =
     (case cls t of
        Tokenizer_base \<Rightarrow> Inl NotImplementedError
      | WhiteSpaceTokenizer \<Rightarrow> Inr (py_split s)
      | EnglishWordTokenizer \<Rightarrow> Inr (py_split (punc_re_sub (py_lower s))))"

text \<open>The two list comprehensions of \<open>tokenize_to_indices\<close>, left to right.\<close>

fun get_or_create_token_indices :: "Tokenizer \<Rightarrow> string list \<Rightarrow> nat list \<times> Tokenizer" where
  "get_or_create_token_indices t [] = ([], t)"
| "get_or_create_token_indices t (token_id # token_ids) =
     (let (token_index, t1) = get_or_create_token_index t token_id;
          (token_indices, t2) = get_or_create_token_indices t1 token_ids
      in (token_index # token_indices, t2))"

fun get_token_indices :: "Tokenizer \<Rightarrow> string list \<Rightarrow> error + nat list" where
  "get_token_indices t [] = Inr []"
| "get_token_indices t (token_id # token_ids) =
     (case get_token_index t token_id of
        Inl e \<Rightarrow> Inl e
      | Inr token_index \<Rightarrow>
          (case get_token_indices t token_ids of
             Inl e \<Rightarrow> Inl e
           | Inr token_indices \<Rightarrow> Inr (token_index # token_indices)))"

definition tokenize_to_indices :: "Tokenizer \<Rightarrow> string \<Rightarrow> bool \<Rightarrow> error + nat list \<times> Tokenizer" where
  "tokenize_to_indices t s create_token_index =
     (case tokenize t s of
        Inl e \<Rightarrow> Inl e
      | Inr token_ids \<Rightarrow>
          (if create_token_index then Inr (get_or_create_token_indices t token_ids)
           else (case get_token_indices t token_ids of
                   Inl e \<Rightarrow> Inl e
                 | Inr token_indices \<Rightarrow> Inr (token_indices, t))))"

section \<open>MetaNetwork\<close>

text \<open>
  Modelled from the spec: the class \<open>MetaNetwork\<close> of \<open>gnn/data/meta_network.py\<close>, which
  \<open>dataset.py\<close> imports and extends, by the interface the specification gives for the
  graph container: a dense index per (type, identifier)
  pair in first-seen order, "the same index-creation discipline as tokens", with a forward
  and a reverse dictionary; named attributes on a (type, index) pair; weighted edges
  between two (type, index) pairs; a count of the nodes of a type.
\<close>

text \<open>Modelled from the spec: the two fixed node categories, NODE and LABEL.\<close>

datatype node_type = N_TYPE_NODE | N_TYPE_LABEL

text \<open>
  The values the dataset stores as attributes: the list of token indices under
  \<open>"features"\<close>, the single LABEL index under \<open>"label"\<close>.
\<close>

datatype attr_value = Token_indices "nat list" | Label_index nat

text \<open>
  Modelled from the spec: the state of the container. \<open>edges\<close> records every accepted
  connection with its weight, in the order of the \<open>add_edges\<close> calls; how the container
  stores a connection (one direction or both) is left open by the specification.
\<close>

record MetaNetwork =
  node_id_index_dict :: "node_type \<Rightarrow> (string, nat) dict"
  node_index_id_dict :: "node_type \<Rightarrow> (nat, string) dict"
  node_attr_dict :: "(node_type \<times> nat \<times> string, attr_value) dict"
  edges :: "(node_type \<times> node_type \<times> nat \<times> nat \<times> real) list"

text \<open>Modelled from the spec: count of the nodes of a type.\<close>

definition num_nodes :: "'a MetaNetwork_scheme \<Rightarrow> node_type \<Rightarrow> nat" where
  "num_nodes mn node_type = dict_len (node_id_index_dict mn node_type)"

text \<open>Modelled from the spec: test existence of a (type, id) pair without creating.\<close>

definition has_node_id :: "'a MetaNetwork_scheme \<Rightarrow> node_type \<Rightarrow> string \<Rightarrow> bool" where
  "has_node_id mn node_type node_id = dict_contains (node_id_index_dict mn node_type) node_id"

text \<open>
  Modelled from the spec: the lookup that does not create; the index of an identifier
  never registered is a LookupError-kind failure.
\<close>

definition get_node_index :: "'a MetaNetwork_scheme \<Rightarrow> node_type \<Rightarrow> string \<Rightarrow> error + nat" where
  "get_node_index mn node_type node_id = dict_get (node_id_index_dict mn node_type) node_id"

text \<open>
  Modelled from the spec: create-or-get a dense index for a (type, raw-id) pair, by the
  discipline of \<open>get_or_create_token_index\<close>: the next index is the current count of the
  type, recorded both ways.
\<close>

definition get_or_create_node_index ::
  "'a MetaNetwork_scheme \<Rightarrow> node_type \<Rightarrow> string \<Rightarrow> nat \<times> 'a MetaNetwork_scheme" where
  "get_or_create_node_index mn node_type node_id =
     (case map_of (node_id_index_dict mn node_type) node_id of
        Some node_index \<Rightarrow> (node_index, mn)
      | None \<Rightarrow>
          (let node_index = num_nodes mn node_type;
               mn1 = mn\<lparr>node_index_id_dict := (node_index_id_dict mn)
                        (node_type := dict_set (node_index_id_dict mn node_type) node_index node_id)\<rparr>;
               mn2 = mn1\<lparr>node_id_index_dict := (node_id_index_dict mn1)
                        (node_type := dict_set (node_id_index_dict mn1 node_type) node_id node_index)\<rparr>
           in (node_index, mn2)))"

text \<open>Modelled from the spec: set a named attribute on a (type, index) pair.\<close>

definition set_node_attr ::
  "'a MetaNetwork_scheme \<Rightarrow> node_type \<Rightarrow> nat \<Rightarrow> string \<Rightarrow> attr_value \<Rightarrow> 'a MetaNetwork_scheme" where
  "set_node_attr mn node_type node_index attr_name attr_value =
     mn\<lparr>node_attr_dict := dict_set (node_attr_dict mn) (node_type, node_index, attr_name) attr_value\<rparr>"

text \<open>
  Modelled from the spec: get a named attribute of a (type, index) pair; reading an
  attribute never set is a LookupError-kind failure.
\<close>

definition get_node_attr ::
  "'a MetaNetwork_scheme \<Rightarrow> node_type \<Rightarrow> nat \<Rightarrow> string \<Rightarrow> error + attr_value" where
  "get_node_attr mn node_type node_index attr_name =
     dict_get (node_attr_dict mn) (node_type, node_index, attr_name)"

text \<open>Modelled from the spec: insert a weighted edge between two (type, index) pairs.\<close>

definition add_edges ::
  "'a MetaNetwork_scheme \<Rightarrow> node_type \<Rightarrow> node_type \<Rightarrow> nat \<Rightarrow> nat \<Rightarrow> real \<Rightarrow> 'a MetaNetwork_scheme" where
  "add_edges mn node_type0 node_type1 node_index0 node_index1 weight =
     mn\<lparr>edges := edges mn @ [(node_type0, node_type1, node_index0, node_index1, weight)]\<rparr>"

section \<open>GraphDataset\<close>

text \<open>
  \<open>data_dir\<close> is the directory as the constructor sees it: each of the four files is
  absent or is the list of its lines, as \<open>for line in f\<close> yields them (a line keeps its
  newline).
\<close>

record data_dir_files =
  docs_txt :: "string list option"
  labels_txt :: "string list option"
  adjedges_txt :: "string list option"
  edgelist_txt :: "string list option"

text \<open>
  \<open>GraphDataset\<close> extends \<open>MetaNetwork\<close>. The dataset holds the state of its tokenizer;
  the constructor's changes to the tokenizer are changes to that field.
\<close>

record GraphDataset = MetaNetwork +
  data_dir :: data_dir_files
  data_format :: string
  ignore_featureless_node :: bool
  tokenizer :: Tokenizer

definition FORMAT_ADJEDGES :: string where
  "FORMAT_ADJEDGES = ''adjedges''"

definition FORMAT_EDGELIST :: string where
  "FORMAT_EDGELIST = ''edgelist''"

text \<open>
  \<open>for line in f: body\<close>, where the body returns the state it leaves or raises; an
  exception ends the loop and the constructor.
\<close>

fun for_lines :: "('s \<Rightarrow> string \<Rightarrow> error + 's) \<Rightarrow> 's \<Rightarrow> string list \<Rightarrow> error + 's" where
  "for_lines body s [] = Inr s"
| "for_lines body s (line # lines) =
     (case body s line of Inl e \<Rightarrow> Inl e | Inr s1 \<Rightarrow> for_lines body s1 lines)"

text \<open>\<open>with open(fpath) as f\<close>: opening a file that is not there raises.\<close>

definition with_open ::
  "string list option \<Rightarrow> (string list \<Rightarrow> error + 's) \<Rightarrow> error + 's" where
  "with_open file loop = (case file of None \<Rightarrow> Inl FileNotFoundError | Some lines \<Rightarrow> loop lines)"

subsection \<open>The document pass\<close>

definition read_docs_line :: "GraphDataset \<Rightarrow> string \<Rightarrow> error + GraphDataset" where
  "read_docs_line self line =
     (case re_split_ws_1 line of
        [node_id, sentence] \<Rightarrow>
          (let (node_index, self1) = get_or_create_node_index self N_TYPE_NODE node_id
           in case tokenize_to_indices (tokenizer self1) sentence True of
                Inl e \<Rightarrow> Inl e
              | Inr (token_indices, tk) \<Rightarrow>
                  Inr (set_node_attr (self1\<lparr>tokenizer := tk\<rparr>) N_TYPE_NODE node_index
                         ''features'' (Token_indices token_indices)))
      | _ \<Rightarrow> Inl ValueError)"

definition read_docs :: "GraphDataset \<Rightarrow> error + GraphDataset" where
  "read_docs self = with_open (docs_txt (data_dir self)) (for_lines read_docs_line self)"

subsection \<open>The labels pass\<close>

definition read_labels_line :: "GraphDataset \<Rightarrow> string \<Rightarrow> error + GraphDataset" where
  "read_labels_line self line =
     (case py_split line of
        [node_id, label_id] \<Rightarrow>
          (case (if ignore_featureless_node self
                 then (case get_node_index self N_TYPE_NODE node_id of
                         Inl e \<Rightarrow> Inl e
                       | Inr node_index \<Rightarrow> Inr (node_index, self))
                 else Inr (get_or_create_node_index self N_TYPE_NODE node_id)) of
             Inl e \<Rightarrow> Inl e
           | Inr (node_index, self1) \<Rightarrow>
               (let (label_index, self2) = get_or_create_node_index self1 N_TYPE_LABEL label_id
                in Inr (set_node_attr self2 N_TYPE_NODE node_index ''label'' (Label_index label_index))))
      | _ \<Rightarrow> Inl ValueError)"

definition read_labels :: "GraphDataset \<Rightarrow> error + GraphDataset" where
  "read_labels self = with_open (labels_txt (data_dir self)) (for_lines read_labels_line self)"

subsection \<open>The structure pass\<close>

text \<open>The inner loop of \<open>_read_adjedges\<close>, over \<open>node_ids[1:]\<close>.\<close>

fun read_adjedges_neighbours :: "GraphDataset \<Rightarrow> nat \<Rightarrow> string list \<Rightarrow> GraphDataset" where
  "read_adjedges_neighbours self node_index0 [] = self"
| "read_adjedges_neighbours self node_index0 (node_id1 # node_ids) =
     (if ignore_featureless_node self \<and> \<not> has_node_id self N_TYPE_NODE node_id1
      then read_adjedges_neighbours self node_index0 node_ids
      else (let (node_index1, self1) = get_or_create_node_index self N_TYPE_NODE node_id1;
                self2 = (if node_index0 \<noteq> node_index1
                         then add_edges self1 N_TYPE_NODE N_TYPE_NODE node_index0 node_index1 1.0
                         else self1)
            in read_adjedges_neighbours self2 node_index0 node_ids))"

definition read_adjedges_line :: "GraphDataset \<Rightarrow> string \<Rightarrow> error + GraphDataset" where
  "read_adjedges_line self line =
     (case py_split line of
        [] \<Rightarrow> Inl IndexError
      | node_id0 # node_ids \<Rightarrow>
          (if ignore_featureless_node self \<and> \<not> has_node_id self N_TYPE_NODE node_id0
           then Inr self
           else (let (node_index0, self1) = get_or_create_node_index self N_TYPE_NODE node_id0
                 in Inr (read_adjedges_neighbours self1 node_index0 node_ids))))"

definition read_adjedges :: "GraphDataset \<Rightarrow> error + GraphDataset" where
  "read_adjedges self = with_open (adjedges_txt (data_dir self)) (for_lines read_adjedges_line self)"

text \<open>
  \<open>_read_edgelist\<close>. The local variable \<open>weight\<close> lives across the iterations of the loop,
  so it is part of the loop's state: \<open>None\<close> while it was never assigned. \<open>float\<close> is
  Python's builtin, taken as the parameter \<open>float_of\<close>: the number a string denotes, or
  \<open>None\<close> where \<open>float\<close> raises \<open>ValueError\<close>.

  \<open>read_edgelist_edge\<close> is the second half of the loop body, from the first existence
  filter to \<open>add_edges\<close>, for the \<open>weight\<close> the first half left. Reading \<open>weight\<close> as the
  argument of \<open>add_edges\<close> raises \<open>UnboundLocalError\<close> while it was never assigned.
\<close>

definition read_edgelist_edge ::
  "GraphDataset \<Rightarrow> string \<Rightarrow> string \<Rightarrow> real option \<Rightarrow> error + GraphDataset \<times> real option" where
  "read_edgelist_edge self node_id0 node_id1 weight =
     (if ignore_featureless_node self \<and> \<not> has_node_id self N_TYPE_NODE node_id0
      then Inr (self, weight)
      else (let (node_index0, self1) = get_or_create_node_index self N_TYPE_NODE node_id0
            in if ignore_featureless_node self1 \<and> \<not> has_node_id self1 N_TYPE_NODE node_id1
               then Inr (self1, weight)
               else (let (node_index1, self2) = get_or_create_node_index self1 N_TYPE_NODE node_id1
                     in if node_index0 \<noteq> node_index1
                        then (case weight of
                                None \<Rightarrow> Inl UnboundLocalError
                              | Some w \<Rightarrow>
                                  Inr (add_edges self2 N_TYPE_NODE N_TYPE_NODE
                                         node_index0 node_index1 w, weight))
                        else Inr (self2, weight))))"

text \<open>
  The whole loop body: \<open>items[0]\<close> and \<open>items[1]\<close> raise \<open>IndexError\<close> on a line of fewer
  than two fields; a line of exactly three fields assigns \<open>weight\<close>, any other leaves it.
\<close>

definition read_edgelist_line ::
  "(string \<Rightarrow> real option) \<Rightarrow> GraphDataset \<times> real option \<Rightarrow> string
     \<Rightarrow> error + GraphDataset \<times> real option" where
  "read_edgelist_line float_of st line =
     (let (self, weight0) = st; items = py_split line
      in case items of
           node_id0 # node_id1 # _ \<Rightarrow>
             (case (if length items = 3
                    then (case float_of (items ! 2) of
                            None \<Rightarrow> Inl ValueError
                          | Some w \<Rightarrow> Inr (Some w))
                    else Inr weight0) of
                Inl e \<Rightarrow> Inl e
              | Inr weight \<Rightarrow> read_edgelist_edge self node_id0 node_id1 weight)
         | _ \<Rightarrow> Inl IndexError)"

definition read_edgelist :: "(string \<Rightarrow> real option) \<Rightarrow> GraphDataset \<Rightarrow> error + GraphDataset" where
  "read_edgelist float_of self =
     (case with_open (edgelist_txt (data_dir self))
             (for_lines (read_edgelist_line float_of) (self, None)) of
        Inl e \<Rightarrow> Inl e
      | Inr (self1, weight) \<Rightarrow> Inr self1)"

definition read_structure :: "(string \<Rightarrow> real option) \<Rightarrow> GraphDataset \<Rightarrow> error + GraphDataset" where
  "read_structure float_of self =
     (if data_format self = FORMAT_ADJEDGES then read_adjedges self
      else read_edgelist float_of self)"

subsection \<open>The constructor\<close>

text \<open>
  The assignments of \<open>__init__\<close> before the three passes: the container starts empty
  (\<open>super().__init__()\<close>, of the class modelled above: no node, attribute or edge), the
  argument \<open>ignore_featureless_node\<close> is received and the
  field is set to \<open>True\<close>, an absent tokenizer is a new \<open>EnglishWordTokenizer\<close>.
\<close>

definition GraphDataset_fields ::
  "data_dir_files \<Rightarrow> string \<Rightarrow> bool \<Rightarrow> Tokenizer option \<Rightarrow> GraphDataset" where
  "GraphDataset_fields dir fmt ignore_featureless_node_arg tokenizer_arg =
     \<lparr>node_id_index_dict = (\<lambda>_. []),
      node_index_id_dict = (\<lambda>_. []),
      node_attr_dict = [],
      edges = [],
      data_dir = dir,
      data_format = fmt,
      ignore_featureless_node = True,
      tokenizer = (case tokenizer_arg of
                     None \<Rightarrow> Tokenizer_init EnglishWordTokenizer
                   | Some t \<Rightarrow> t)\<rparr>"

definition GraphDataset_init ::
  "(string \<Rightarrow> real option) \<Rightarrow> data_dir_files \<Rightarrow> string \<Rightarrow> bool \<Rightarrow> Tokenizer option
     \<Rightarrow> error + GraphDataset" where
  "GraphDataset_init float_of dir fmt ignore_featureless_node_arg tokenizer_arg =
     (case read_docs (GraphDataset_fields dir fmt ignore_featureless_node_arg tokenizer_arg) of
        Inl e \<Rightarrow> Inl e
      | Inr self1 \<Rightarrow>
          (case read_labels self1 of
             Inl e \<Rightarrow> Inl e
           | Inr self2 \<Rightarrow> read_structure float_of self2))"

subsection \<open>feature_matrix\<close>

text \<open>
  The two nested loops of \<open>feature_matrix\<close>. The three lists \<open>data\<close>, \<open>row\<close> and \<open>col\<close>
  grow together, one element each per token occurrence; they are kept as one list of
  triples \<open>(data, row, col)\<close>.
\<close>

fun feature_entries :: "GraphDataset \<Rightarrow> nat list \<Rightarrow> error + (int \<times> nat \<times> nat) list" where
  "feature_entries self [] = Inr []"
| "feature_entries self (node_index # node_indices) =
     (case get_node_attr self N_TYPE_NODE node_index ''features'' of
        Inl e \<Rightarrow> Inl e
      | Inr (Label_index _) \<Rightarrow> Inl TypeError
      | Inr (Token_indices token_indices) \<Rightarrow>
          (case feature_entries self node_indices of
             Inl e \<Rightarrow> Inl e
           | Inr entries \<Rightarrow>
               Inr (map (\<lambda>token_index. (1, node_index, token_index)) token_indices @ entries)))"

text \<open>
  A matrix is its shape and its rows. \<open>csr_matrix((data, (row, col)), shape)\<close> of
  \<open>scipy.sparse\<close> sums the entries given for the same cell and refuses an index outside
  the shape. The cells are integers: \<open>data\<close> is a list of the integer 1, and a cell is
  at most the number of elements of a Python list, far below the range of a 64-bit integer.
\<close>

datatype matrix =
    Csr_matrix "nat \<times> nat" "int list list"
  | Dense_float32 "nat \<times> nat" "real list list"

definition csr_matrix :: "(int \<times> nat \<times> nat) list \<Rightarrow> nat \<times> nat \<Rightarrow> error + matrix" where
  "csr_matrix entries shape =
     (let (m, n) = shape
      in if list_ex (\<lambda>(d, r, c). \<not> r < m \<or> \<not> c < n) entries then Inl ValueError
         else Inr (Csr_matrix shape
                (map (\<lambda>i. map (\<lambda>j. sum_list (map fst (filter (\<lambda>(d, r, c). r = i \<and> c = j) entries)))
                             [0..<n])
                     [0..<m])))"

text \<open>
  \<open>astype(np.float32)\<close> rounds an integer to the nearest number with a significand of 24
  bits, ties to the even significand. \<open>bit_length\<close> is the number of binary digits; an
  integer below \<open>2 ^ 24\<close> is kept, a larger one loses its low \<open>bit_length - 24\<close> digits.
  (The largest cell is far below the overflow of float32.)
\<close>

function bit_length :: "nat \<Rightarrow> nat" where
  "bit_length n = (if n = 0 then 0 else Suc (bit_length (n div 2)))"
  by pat_completeness auto
termination
  by (relation "measure (\<lambda>n. n)") auto

declare bit_length.simps [simp del]

definition float32_of_nat :: "nat \<Rightarrow> real" where
  "float32_of_nat n =
     (if n < 2 ^ 24 then real n
      else (let e = bit_length n - 24;
                q = n div 2 ^ e;
                r = n mod 2 ^ e;
                half = 2 ^ (e - 1);
                q1 = (if half < r \<or> (r = half \<and> odd q) then q + 1 else q)
            in real (q1 * 2 ^ e)))"

definition float32_of_int :: "int \<Rightarrow> real" where
  "float32_of_int i = (if i < 0 then - float32_of_nat (nat (- i)) else float32_of_nat (nat i))"

fun todense_float32 :: "matrix \<Rightarrow> matrix" where
  "todense_float32 (Csr_matrix shape rows) = Dense_float32 shape (map (map float32_of_int) rows)"
| "todense_float32 (Dense_float32 shape rows) = Dense_float32 shape rows"

definition feature_matrix :: "GraphDataset \<Rightarrow> bool \<Rightarrow> bool \<Rightarrow> error + matrix" where
  "feature_matrix self bag_of_words sparse =
     (if bag_of_words
      then (let num_nodes = num_nodes self N_TYPE_NODE;
                feature_dim = num_tokens (tokenizer self)
            in case feature_entries self [0..<num_nodes] of
                 Inl e \<Rightarrow> Inl e
               | Inr entries \<Rightarrow>
                   (case csr_matrix entries (num_nodes, feature_dim) of
                      Inl e \<Rightarrow> Inl e
                    | Inr feature_matrix \<Rightarrow>
                        Inr (if \<not> sparse then todense_float32 feature_matrix else feature_matrix)))
      else Inl NotImplementedError)"

text \<open>The constructor followed by \<open>feature_matrix\<close> on the dataset it returns.\<close>

definition GraphDataset_feature_matrix ::
  "(string \<Rightarrow> real option) \<Rightarrow> data_dir_files \<Rightarrow> string \<Rightarrow> bool \<Rightarrow> Tokenizer option
     \<Rightarrow> bool \<Rightarrow> bool \<Rightarrow> error + matrix" where
  "GraphDataset_feature_matrix float_of dir fmt ignore_featureless_node_arg tokenizer_arg
       bag_of_words sparse =
     (case GraphDataset_init float_of dir fmt ignore_featureless_node_arg tokenizer_arg of
        Inl e \<Rightarrow> Inl e
      | Inr self \<Rightarrow> feature_matrix self bag_of_words sparse)"

section \<open>Invariants\<close>

text \<open>
  An index dictionary hands out the indices 0, 1, 2, ... in insertion order, one per key:
  the values of the list are \<open>[0..<len]\<close> and the keys are distinct.
\<close>

definition index_dict_wf :: "('k, nat) dict \<Rightarrow> bool" where
  "index_dict_wf d = (map snd d = [0..<length d] \<and> distinct (map fst d))"

text \<open>
  What holds of a tokenizer that was changed by its own methods only: the forward
  dictionary is an index dictionary and the reverse dictionary is its mirror image.
\<close>

definition Tokenizer_wf :: "Tokenizer \<Rightarrow> bool" where
  "Tokenizer_wf t =
     (index_dict_wf (token_id_index_dict t) \<and>
      token_index_id_dict t =
        map (\<lambda>(token_id, token_index). (token_index, token_id)) (token_id_index_dict t))"

text \<open>The character class \<open>[a-z]\<close>.\<close>

definition is_ascii_lower :: "char \<Rightarrow> bool" where
  "is_ascii_lower c = (let n = (of_char c :: nat) in 97 \<le> n \<and> n \<le> 122)"

text \<open>An edge as the claims want it: between two NODE indices, and not a self-loop.\<close>

definition edge_ok :: "node_type \<times> node_type \<times> nat \<times> nat \<times> real \<Rightarrow> bool" where
  "edge_ok e = (case e of (node_type0, node_type1, node_index0, node_index1, weight) \<Rightarrow>
      node_type0 = N_TYPE_NODE \<and> node_type1 = N_TYPE_NODE \<and> node_index0 \<noteq> node_index1)"

text \<open>
  Every NODE index carries a \<open>features\<close> attribute that is a list of token indices; and
  every token index stored under \<open>features\<close> is below \<open>num_tokens\<close> of the dataset's
  tokenizer.
\<close>

definition features_present :: "GraphDataset \<Rightarrow> bool" where
  "features_present self =
     (\<forall>i<num_nodes self N_TYPE_NODE.
        \<exists>token_indices. get_node_attr self N_TYPE_NODE i ''features'' = Inr (Token_indices token_indices))"

definition features_bounded :: "GraphDataset \<Rightarrow> bool" where
  "features_bounded self =
     (\<forall>i token_indices.
        get_node_attr self N_TYPE_NODE i ''features'' = Inr (Token_indices token_indices) \<longrightarrow>
        (\<forall>t\<in>set token_indices. t < num_tokens (tokenizer self)))"

text \<open>The \<open>features\<close> of a node as \<open>feature_matrix\<close> reads them; empty where the lookup fails.\<close>

definition features_of :: "GraphDataset \<Rightarrow> nat \<Rightarrow> nat list" where
  "features_of self node_index =
     (case get_node_attr self N_TYPE_NODE node_index ''features'' of
        Inr (Token_indices token_indices) \<Rightarrow> token_indices
      | _ \<Rightarrow> [])"

section \<open>Example inputs\<close>

text \<open>
  \<open>float\<close> on the two literals the examples use, and a directory of two documents, two
  labels, one adjacency line (with the unknown node n3 and a self-loop) and two edge-list
  lines (the second without weight).
\<close>

definition float_of_example :: "string \<Rightarrow> real option" where
  "float_of_example s = (if s = ''2.5'' then Some 2.5 else if s = ''1.0'' then Some 1.0 else None)"

definition example_dir :: data_dir_files where
  "example_dir =
     \<lparr>docs_txt = Some [''n1 the cat sat the'' @ [CHR 0x0A], ''n2 the dog ran'' @ [CHR 0x0A]],
      labels_txt = Some [''n1 L0'' @ [CHR 0x0A], ''n2 L1'' @ [CHR 0x0A]],
      adjedges_txt = Some [''n1 n2 n3 n1'' @ [CHR 0x0A]],
      edgelist_txt = Some [''n1 n2 2.5'' @ [CHR 0x0A], ''n2 n1'' @ [CHR 0x0A]]\<rparr>"

text \<open>
  Variants of the example directory: an edge list whose only line has no weight, an edge
  list whose only line is a self-loop without weight, and a label for the unknown node n9.
\<close>

definition unbound_weight_dir :: data_dir_files where
  "unbound_weight_dir = example_dir\<lparr>edgelist_txt := Some [''n1 n2'' @ [CHR 0x0A]]\<rparr>"

definition self_loop_dir :: data_dir_files where
  "self_loop_dir = example_dir\<lparr>edgelist_txt := Some [''n1 n1'' @ [CHR 0x0A]]\<rparr>"

definition unknown_label_dir :: data_dir_files where
  "unknown_label_dir = example_dir\<lparr>labels_txt := Some [''n1 L0'' @ [CHR 0x0A], ''n9 L1'' @ [CHR 0x0A]]\<rparr>"

text \<open>
  A directory with one document, whose text is the token \<open>a\<close> repeated \<open>k\<close> times, no
  labels and no edges.
\<close>

definition repeated_token_dir :: "nat \<Rightarrow> data_dir_files" where
  "repeated_token_dir k =
     \<lparr>docs_txt = Some [''n '' @ concat (replicate k ''a '')],
      labels_txt = Some [],
      adjedges_txt = Some [],
      edgelist_txt = None\<rparr>"

section \<open>Dictionaries and index assignment\<close>

lemma dict_set_absent: "map_of d k = None \<Longrightarrow> dict_set d k v = d @ [(k, v)]"
  unfolding dict_set_def by (induction d) (auto split: if_splits)

lemma map_of_snoc:
  "map_of (d @ [(k, v)]) x = (case map_of d x of Some y \<Rightarrow> Some y | None \<Rightarrow> if x = k then Some v else None)"
  by (induction d) auto

lemma index_dict_wf_snoc:
  assumes "index_dict_wf d" and "map_of d k = None"
  shows "index_dict_wf (d @ [(k, length d)])"
proof -
  from assms(2) have "k \<notin> fst ` set d" by (simp add: map_of_eq_None_iff)
  with assms(1) show ?thesis by (simp add: index_dict_wf_def)
qed

lemma index_dict_wf_bound:
  assumes "index_dict_wf d" and "map_of d k = Some i"
  shows "i < length d"
proof -
  from assms(2) have "(k, i) \<in> set d" by (rule map_of_SomeD)
  then have "i \<in> set (map snd d)" by force
  with assms(1) show ?thesis by (simp add: index_dict_wf_def)
qed

lemma index_dict_wf_nth:
  assumes "index_dict_wf d" and "i < length d"
  shows "map_of d (fst (d ! i)) = Some i"
proof -
  from assms have "snd (d ! i) = i"
    by (metis index_dict_wf_def nth_map nth_upt add_0 length_map)
  moreover from assms(2) have "d ! i \<in> set d" by simp
  ultimately have "(fst (d ! i), i) \<in> set d" by (metis prod.collapse)
  with assms(1) show ?thesis by (simp add: index_dict_wf_def)
qed

lemma index_dict_wf_inj:
  assumes "index_dict_wf d" and "map_of d k = Some i" and "map_of d k' = Some i"
  shows "k = k'"
proof -
  from assms have i: "i < length d" by (auto dest: index_dict_wf_bound)
  have key: "\<And>x. map_of d x = Some i \<Longrightarrow> x = fst (d ! i)"
  proof -
    fix x assume "map_of d x = Some i"
    then have "(x, i) \<in> set d" by (rule map_of_SomeD)
    then obtain j where j: "j < length d" "d ! j = (x, i)" by (auto simp: in_set_conv_nth)
    from assms(1) j(1) have "snd (d ! j) = j"
      by (metis index_dict_wf_def nth_map nth_upt add_0 length_map)
    with j show "x = fst (d ! i)" by simp
  qed
  from key[OF assms(2)] key[OF assms(3)] show ?thesis by simp
qed

lemma Tokenizer_wf_init: "Tokenizer_wf (Tokenizer_init c)"
  by (simp add: Tokenizer_wf_def Tokenizer_init_def index_dict_wf_def)

lemma get_or_create_token_index_seen:
  "map_of (token_id_index_dict t) token_id = Some i \<Longrightarrow> get_or_create_token_index t token_id = (i, t)"
  by (simp add: get_or_create_token_index_def)

lemma reverse_absent:
  assumes "index_dict_wf d"
  shows "map_of (map (\<lambda>(k, i). (i, k)) d) (length d) = None"
proof -
  have "fst ` set (map (\<lambda>(k, i). (i, k)) d) = set (map snd d)" by force
  with assms show ?thesis by (simp add: map_of_eq_None_iff index_dict_wf_def)
qed

lemma get_or_create_token_index_new:
  assumes "Tokenizer_wf t" and "map_of (token_id_index_dict t) token_id = None"
  shows "get_or_create_token_index t token_id =
           (num_tokens t,
            t\<lparr>token_index_id_dict := token_index_id_dict t @ [(num_tokens t, token_id)],
              token_id_index_dict := token_id_index_dict t @ [(token_id, num_tokens t)]\<rparr>)"
proof -
  from assms(1) have "map_of (token_index_id_dict t) (num_tokens t) = None"
    using reverse_absent[of "token_id_index_dict t"]
    by (simp add: Tokenizer_wf_def num_tokens_def dict_len_def)
  with assms(2) show ?thesis
    by (simp add: get_or_create_token_index_def Let_def dict_set_absent)
qed

lemma get_or_create_token_index_wf:
  assumes "Tokenizer_wf t" and "get_or_create_token_index t token_id = (i, t')"
  shows "Tokenizer_wf t'"
proof (cases "map_of (token_id_index_dict t) token_id")
  case None
  with assms get_or_create_token_index_new[OF assms(1) None] show ?thesis
    by (auto simp: Tokenizer_wf_def num_tokens_def dict_len_def intro: index_dict_wf_snoc)
next
  case (Some j)
  with assms show ?thesis by (simp add: get_or_create_token_index_seen)
qed

lemma get_or_create_token_index_result:
  assumes "Tokenizer_wf t" and "get_or_create_token_index t token_id = (i, t')"
  shows "map_of (token_id_index_dict t') token_id = Some i"
    and "\<And>x j. map_of (token_id_index_dict t) x = Some j \<Longrightarrow> map_of (token_id_index_dict t') x = Some j"
    and "fst ` set (token_id_index_dict t') = insert token_id (fst ` set (token_id_index_dict t))"
    and "cls t' = cls t"
proof -
  show "map_of (token_id_index_dict t') token_id = Some i"
  proof (cases "map_of (token_id_index_dict t) token_id")
    case None
    with assms get_or_create_token_index_new[OF assms(1) None] show ?thesis
      by (auto simp: map_of_snoc simp del: map_of_append)
  next
    case (Some j)
    with assms show ?thesis by (simp add: get_or_create_token_index_seen)
  qed
  show "\<And>x j. map_of (token_id_index_dict t) x = Some j \<Longrightarrow> map_of (token_id_index_dict t') x = Some j"
  proof (cases "map_of (token_id_index_dict t) token_id")
    case None
    fix x j assume "map_of (token_id_index_dict t) x = Some j"
    with assms get_or_create_token_index_new[OF assms(1) None] show "map_of (token_id_index_dict t') x = Some j"
      by (auto simp: map_of_snoc simp del: map_of_append)
  next
    case (Some k)
    fix x j assume "map_of (token_id_index_dict t) x = Some j"
    with Some assms show "map_of (token_id_index_dict t') x = Some j" by (simp add: get_or_create_token_index_seen)
  qed
  show "fst ` set (token_id_index_dict t') = insert token_id (fst ` set (token_id_index_dict t))"
  proof (cases "map_of (token_id_index_dict t) token_id")
    case None
    with assms get_or_create_token_index_new[OF assms(1) None] show ?thesis by auto
  next
    case (Some j)
    then have "token_id \<in> fst ` set (token_id_index_dict t)"
      by (metis map_of_eq_None_iff option.distinct(1))
    with Some assms show ?thesis by (auto simp: get_or_create_token_index_seen)
  qed
  show "cls t' = cls t"
    using assms(2) by (auto simp: get_or_create_token_index_def Let_def split: option.splits)
qed

lemma get_or_create_token_indices_run:
  assumes "Tokenizer_wf t0" and "get_or_create_token_indices t0 token_ids = (token_indices, t)"
  shows "Tokenizer_wf t \<and> length token_indices = length token_ids \<and> cls t = cls t0 \<and>
         (\<forall>k<length token_ids. map_of (token_id_index_dict t) (token_ids ! k) = Some (token_indices ! k)) \<and>
         fst ` set (token_id_index_dict t) = fst ` set (token_id_index_dict t0) \<union> set token_ids \<and>
         (\<forall>x j. map_of (token_id_index_dict t0) x = Some j \<longrightarrow> map_of (token_id_index_dict t) x = Some j)"
  using assms
proof (induction token_ids arbitrary: t0 token_indices t)
  case Nil
  then show ?case by simp
next
  case (Cons a token_ids)
  obtain i t1 where s1: "get_or_create_token_index t0 a = (i, t1)" by (cases "get_or_create_token_index t0 a")
  obtain js t2 where s2: "get_or_create_token_indices t1 token_ids = (js, t2)"
    by (cases "get_or_create_token_indices t1 token_ids")
  from Cons.prems(2) s1 s2 have eq: "token_indices = i # js" "t = t2" by auto
  have wf1: "Tokenizer_wf t1" using Cons.prems(1) s1 by (rule get_or_create_token_index_wf)
  note r1 = get_or_create_token_index_result[OF Cons.prems(1) s1]
  from Cons.IH[OF wf1 s2] have
    ih: "Tokenizer_wf t2" "length js = length token_ids" "cls t2 = cls t1"
      "\<forall>k<length token_ids. map_of (token_id_index_dict t2) (token_ids ! k) = Some (js ! k)"
      "fst ` set (token_id_index_dict t2) = fst ` set (token_id_index_dict t1) \<union> set token_ids"
      "\<forall>x j. map_of (token_id_index_dict t1) x = Some j \<longrightarrow> map_of (token_id_index_dict t2) x = Some j"
    by blast+
  have "\<forall>k<length (a # token_ids). map_of (token_id_index_dict t2) ((a # token_ids) ! k) = Some ((i # js) ! k)"
  proof (intro allI impI)
    fix k assume "k < length (a # token_ids)"
    then show "map_of (token_id_index_dict t2) ((a # token_ids) ! k) = Some ((i # js) ! k)"
      using ih(4,6) r1(1) by (cases k) auto
  qed
  moreover have "fst ` set (token_id_index_dict t2) = fst ` set (token_id_index_dict t0) \<union> set (a # token_ids)"
    using ih(5) r1(3) by auto
  moreover have "\<forall>x j. map_of (token_id_index_dict t0) x = Some j \<longrightarrow> map_of (token_id_index_dict t2) x = Some j"
    using ih(6) r1(2) by blast
  ultimately show ?case using ih(1,2,3) r1(4) eq by simp
qed


section \<open>Claims about the tokenizer\<close>

text \<open>
  C3. Take a new tokenizer after any sequence \<open>token_ids\<close> of calls of
  \<open>get_or_create_token_index\<close>, which returned \<open>token_indices\<close>. A further call for an
  identifier seen before changes nothing and returns the index that every earlier call
  for it returned; a call for a new identifier returns the current \<open>num_tokens\<close>, raises
  \<open>num_tokens\<close> by one and records identifier to index and index to identifier. Calling
  again with the same identifier returns the same index and leaves \<open>num_tokens\<close> as it is.
  Different identifiers got different indices, and the indices handed out are exactly
  \<open>0..<num_tokens\<close>.
\<close>

theorem get_or_create_token_index_sequence:
  assumes run: "get_or_create_token_indices (Tokenizer_init c) token_ids = (token_indices, t)"
  shows "(\<forall>token_id token_index t'.
            get_or_create_token_index t token_id = (token_index, t') \<longrightarrow>
              (if token_id \<in> set token_ids
               then t' = t \<and>
                    (\<forall>k<length token_ids. token_ids ! k = token_id \<longrightarrow> token_indices ! k = token_index)
               else token_index = num_tokens t \<and> num_tokens t' = Suc (num_tokens t) \<and>
                    get_token_index t' token_id = Inr token_index \<and>
                    dict_get (token_index_id_dict t') token_index = Inr token_id) \<and>
              get_or_create_token_index t' token_id = (token_index, t') \<and>
              num_tokens (snd (get_or_create_token_index t' token_id)) = num_tokens t') \<and>
         length token_indices = length token_ids \<and>
         (\<forall>j<length token_ids. \<forall>k<length token_ids.
            token_ids ! j \<noteq> token_ids ! k \<longrightarrow> token_indices ! j \<noteq> token_indices ! k) \<and>
         set token_indices = {0..<num_tokens t}"
proof -
  note r = get_or_create_token_indices_run[OF Tokenizer_wf_init run]
  from r have wf: "Tokenizer_wf t" and len: "length token_indices = length token_ids"
    and look: "\<forall>k<length token_ids. map_of (token_id_index_dict t) (token_ids ! k) = Some (token_indices ! k)"
    and keys: "fst ` set (token_id_index_dict t) = set token_ids"
    by (simp_all add: Tokenizer_init_def)
  from wf have iwf: "index_dict_wf (token_id_index_dict t)" by (simp add: Tokenizer_wf_def)
  have calls: "\<forall>token_id token_index t'.
            get_or_create_token_index t token_id = (token_index, t') \<longrightarrow>
              (if token_id \<in> set token_ids
               then t' = t \<and>
                    (\<forall>k<length token_ids. token_ids ! k = token_id \<longrightarrow> token_indices ! k = token_index)
               else token_index = num_tokens t \<and> num_tokens t' = Suc (num_tokens t) \<and>
                    get_token_index t' token_id = Inr token_index \<and>
                    dict_get (token_index_id_dict t') token_index = Inr token_id) \<and>
              get_or_create_token_index t' token_id = (token_index, t') \<and>
              num_tokens (snd (get_or_create_token_index t' token_id)) = num_tokens t'"
  proof (intro allI impI)
    fix token_id token_index t'
    assume call: "get_or_create_token_index t token_id = (token_index, t')"
    have again: "get_or_create_token_index t' token_id = (token_index, t')"
      using get_or_create_token_index_result(1)[OF wf call]
      by (rule get_or_create_token_index_seen)
    have branch: "if token_id \<in> set token_ids
               then t' = t \<and>
                    (\<forall>k<length token_ids. token_ids ! k = token_id \<longrightarrow> token_indices ! k = token_index)
               else token_index = num_tokens t \<and> num_tokens t' = Suc (num_tokens t) \<and>
                    get_token_index t' token_id = Inr token_index \<and>
                    dict_get (token_index_id_dict t') token_index = Inr token_id"
    proof (cases "token_id \<in> set token_ids")
      case True
      then obtain k where k: "k < length token_ids" "token_ids ! k = token_id"
        by (auto simp: in_set_conv_nth)
      with look have "map_of (token_id_index_dict t) token_id = Some (token_indices ! k)" by auto
      with call have same: "t' = t" "token_index = token_indices ! k"
        by (simp_all add: get_or_create_token_index_seen)
      have "\<forall>j<length token_ids. token_ids ! j = token_id \<longrightarrow> token_indices ! j = token_index"
        using look k same by (metis option.inject)
      with True same show ?thesis by simp
    next
      case False
      with keys have none: "map_of (token_id_index_dict t) token_id = None"
        by (simp add: map_of_eq_None_iff)
      from wf have rev_none: "map_of (token_index_id_dict t) (num_tokens t) = None"
        using reverse_absent[OF iwf] by (simp add: Tokenizer_wf_def num_tokens_def dict_len_def)
      from call get_or_create_token_index_new[OF wf none]
      have res: "token_index = num_tokens t"
        "t' = t\<lparr>token_index_id_dict := token_index_id_dict t @ [(num_tokens t, token_id)],
               token_id_index_dict := token_id_index_dict t @ [(token_id, num_tokens t)]\<rparr>"
        by auto
      from res none rev_none False show ?thesis
        by (simp add: num_tokens_def dict_len_def get_token_index_def dict_get_def map_of_snoc
              del: map_of_append)
    qed
    from branch again show "(if token_id \<in> set token_ids
               then t' = t \<and>
                    (\<forall>k<length token_ids. token_ids ! k = token_id \<longrightarrow> token_indices ! k = token_index)
               else token_index = num_tokens t \<and> num_tokens t' = Suc (num_tokens t) \<and>
                    get_token_index t' token_id = Inr token_index \<and>
                    dict_get (token_index_id_dict t') token_index = Inr token_id) \<and>
              get_or_create_token_index t' token_id = (token_index, t') \<and>
              num_tokens (snd (get_or_create_token_index t' token_id)) = num_tokens t'"
      by simp
  qed
  have inj: "\<forall>j<length token_ids. \<forall>k<length token_ids.
            token_ids ! j \<noteq> token_ids ! k \<longrightarrow> token_indices ! j \<noteq> token_indices ! k"
    using look index_dict_wf_inj[OF iwf] by metis
  have range: "set token_indices = {0..<num_tokens t}"
  proof (intro equalityI subsetI)
    fix i assume "i \<in> set token_indices"
    then obtain k where "k < length token_ids" "token_indices ! k = i"
      using len by (auto simp: in_set_conv_nth)
    with look have "map_of (token_id_index_dict t) (token_ids ! k) = Some i" by auto
    from index_dict_wf_bound[OF iwf this] show "i \<in> {0..<num_tokens t}"
      by (simp add: num_tokens_def dict_len_def)
  next
    fix i assume "i \<in> {0..<num_tokens t}"
    then have i: "i < length (token_id_index_dict t)" by (simp add: num_tokens_def dict_len_def)
    then have "fst (token_id_index_dict t ! i) \<in> fst ` set (token_id_index_dict t)" by simp
    with keys obtain k where k: "k < length token_ids" "token_ids ! k = fst (token_id_index_dict t ! i)"
      by (auto simp: in_set_conv_nth)
    with look index_dict_wf_nth[OF iwf i] have "token_indices ! k = i" by auto
    with k(1) len show "i \<in> set token_indices" by (metis nth_mem)
  qed
  from calls len inj range show ?thesis by blast
qed


theorem get_or_create_token_index_sequence_witness:
  "get_or_create_token_indices (Tokenizer_init WhiteSpaceTokenizer) [''the'', ''cat'', ''the''] =
     ([0, 1, 0],
      \<lparr>cls = WhiteSpaceTokenizer,
       token_id_index_dict = [(''the'', 0), (''cat'', 1)],
       token_index_id_dict = [(0, ''the''), (1, ''cat'')]\<rparr>) \<and>
   set [0, 1, 0] =
     {0..<num_tokens \<lparr>cls = WhiteSpaceTokenizer,
            token_id_index_dict = [(''the'', 0), (''cat'', 1)],
            token_index_id_dict = [(0, ''the''), (1, ''cat'')]\<rparr>}"
proof -
  have run: "get_or_create_token_indices (Tokenizer_init WhiteSpaceTokenizer) [''the'', ''cat'', ''the''] =
     ([0, 1, 0],
      \<lparr>cls = WhiteSpaceTokenizer,
       token_id_index_dict = [(''the'', 0), (''cat'', 1)],
       token_index_id_dict = [(0, ''the''), (1, ''cat'')]\<rparr>)"
    by code_simp
  have "set [0, 1, 0] =
     {0..<num_tokens \<lparr>cls = WhiteSpaceTokenizer,
            token_id_index_dict = [(''the'', 0), (''cat'', 1)],
            token_index_id_dict = [(0, ''the''), (1, ''cat'')]\<rparr>}"
    using get_or_create_token_index_sequence[OF run] by blast
  with run show ?thesis by (rule conjI)
qed

section \<open>English word tokenization\<close>

lemma split_from_concat: "concat (split_from cur s) = cur @ filter (\<lambda>c. \<not> py_isspace c) s"
  by (induction s arbitrary: cur) auto

lemma split_from_tokens:
  "w \<in> set (split_from cur s) \<Longrightarrow> w \<noteq> [] \<and> set w \<subseteq> set cur \<union> {c \<in> set s. \<not> py_isspace c}"
proof (induction s arbitrary: cur)
  case Nil
  then show ?case by (simp split: if_splits)
next
  case (Cons a s)
  show ?case
  proof (cases "py_isspace a")
    case True
    with Cons.prems have "w = cur \<and> cur \<noteq> [] \<or> w \<in> set (split_from [] s)"
      by (auto split: if_splits)
    then show ?thesis using Cons.IH[of "[]"] by auto
  next
    case False
    with Cons.prems have "w \<in> set (split_from (cur @ [a]) s)" by simp
    from Cons.IH[OF this] False show ?thesis by auto
  qed
qed

lemma py_lower_char_not_upper:
  "is_ascii_letter (py_lower_char c) \<Longrightarrow> is_ascii_lower (py_lower_char c)"
  by (auto simp: is_ascii_letter_def is_ascii_lower_def py_lower_char_def Let_def split: if_splits)

lemma is_ascii_letter_not_space: "is_ascii_letter c \<Longrightarrow> \<not> py_isspace c"
  by (auto simp: is_ascii_letter_def py_isspace_def Let_def)

lemma space_is_space: "py_isspace CHR '' ''"
  by (simp add: py_isspace_def)

lemma filter_punc_re_sub:
  "filter (\<lambda>c. \<not> py_isspace c) (punc_re_sub s) = filter is_ascii_letter s"
  by (induction s) (auto simp: punc_re_sub_def space_is_space is_ascii_letter_not_space)

text \<open>
  C7. \<open>EnglishWordTokenizer.tokenize("Cats, Dogs! 123")\<close> is \<open>["cats", "dogs"]\<close>. For every
  input, the result is the whitespace split of the lowercased text in which every
  character outside \<open>[a-zA-Z]\<close> became a space: the words, put together, are the ASCII
  letters of the lowercased text in their order, and every word is a non-empty run of the
  letters a to z, so digits and punctuation are dropped.
\<close>

theorem EnglishWordTokenizer_tokenize:
  "tokenize (Tokenizer_init EnglishWordTokenizer) ''Cats, Dogs! 123'' = Inr [''cats'', ''dogs''] \<and>
   (\<forall>t s. cls t = EnglishWordTokenizer \<longrightarrow>
      (\<exists>words. tokenize t s = Inr words \<and>
         words = py_split (map (\<lambda>c. if is_ascii_letter c then c else CHR '' '') (py_lower s)) \<and>
         concat words = filter is_ascii_letter (py_lower s) \<and>
         (\<forall>w\<in>set words. w \<noteq> [] \<and> (\<forall>c\<in>set w. is_ascii_lower c))))"
proof -
  have ex: "tokenize (Tokenizer_init EnglishWordTokenizer) ''Cats, Dogs! 123'' = Inr [''cats'', ''dogs'']"
    by code_simp
  have gen: "\<forall>t s. cls t = EnglishWordTokenizer \<longrightarrow>
      (\<exists>words. tokenize t s = Inr words \<and>
         words = py_split (map (\<lambda>c. if is_ascii_letter c then c else CHR '' '') (py_lower s)) \<and>
         concat words = filter is_ascii_letter (py_lower s) \<and>
         (\<forall>w\<in>set words. w \<noteq> [] \<and> (\<forall>c\<in>set w. is_ascii_lower c)))"
  proof (intro allI impI)
    fix t :: Tokenizer and s
    assume c: "cls t = EnglishWordTokenizer"
    let ?words = "py_split (punc_re_sub (py_lower s))"
    have 1: "tokenize t s = Inr ?words" using c by (simp add: tokenize_def)
    have 2: "concat ?words = filter is_ascii_letter (py_lower s)"
      by (simp add: py_split_def split_from_concat filter_punc_re_sub)
    have 3: "\<forall>w\<in>set ?words. w \<noteq> [] \<and> (\<forall>c\<in>set w. is_ascii_lower c)"
    proof
      fix w assume w: "w \<in> set ?words"
      from split_from_tokens[OF w[unfolded py_split_def]]
      have ne: "w \<noteq> []" and sub: "set w \<subseteq> {c \<in> set (punc_re_sub (py_lower s)). \<not> py_isspace c}"
        by auto
      have "\<forall>c\<in>set w. is_ascii_lower c"
      proof
        fix c assume "c \<in> set w"
        with sub have "c \<in> set (punc_re_sub (py_lower s))" "\<not> py_isspace c" by auto
        then obtain x where "x \<in> set s" "c = py_lower_char x" "is_ascii_letter (py_lower_char x)"
          by (auto simp: punc_re_sub_def py_lower_def space_is_space split: if_splits)
        then show "is_ascii_lower c" by (simp add: py_lower_char_not_upper)
      qed
      with ne show "w \<noteq> [] \<and> (\<forall>c\<in>set w. is_ascii_lower c)" by simp
    qed
    from 1 2 3 show "\<exists>words. tokenize t s = Inr words \<and>
         words = py_split (map (\<lambda>c. if is_ascii_letter c then c else CHR '' '') (py_lower s)) \<and>
         concat words = filter is_ascii_letter (py_lower s) \<and>
         (\<forall>w\<in>set words. w \<noteq> [] \<and> (\<forall>c\<in>set w. is_ascii_lower c))"
      by (simp add: punc_re_sub_def)
  qed
  from ex gen show ?thesis by (rule conjI)
qed

theorem EnglishWordTokenizer_tokenize_witness:
  "cls (Tokenizer_init EnglishWordTokenizer) = EnglishWordTokenizer \<and>
   tokenize (Tokenizer_init EnglishWordTokenizer) ''Pi is 3.14'' = Inr [''pi'', ''is''] \<and>
   concat [''pi'', ''is''] = filter is_ascii_letter (py_lower ''Pi is 3.14'') \<and>
   list_all (\<lambda>w. w \<noteq> [] \<and> list_all is_ascii_lower w) [''pi'', ''is'']"
proof -
  have c: "cls (Tokenizer_init EnglishWordTokenizer) = EnglishWordTokenizer"
    by (simp add: Tokenizer_init_def)
  have r: "tokenize (Tokenizer_init EnglishWordTokenizer) ''Pi is 3.14'' = Inr [''pi'', ''is'']"
    by code_simp
  from EnglishWordTokenizer_tokenize c obtain words where
    w: "tokenize (Tokenizer_init EnglishWordTokenizer) ''Pi is 3.14'' = Inr words"
       "concat words = filter is_ascii_letter (py_lower ''Pi is 3.14'')"
       "\<forall>w\<in>set words. w \<noteq> [] \<and> (\<forall>c\<in>set w. is_ascii_lower c)"
    by blast
  from w(1) r have "words = [''pi'', ''is'']" by simp
  with w c r show ?thesis by (simp add: list_all_iff)
qed

section \<open>The loops of the constructor\<close>

lemma for_lines_append:
  "for_lines body s (xs @ ys) =
     (case for_lines body s xs of Inl e \<Rightarrow> Inl e | Inr s1 \<Rightarrow> for_lines body s1 ys)"
  by (induction xs arbitrary: s) (auto split: sum.splits)

lemma for_lines_invariant:
  assumes "for_lines body s ls = Inr s'" and "P s"
    and "\<And>a l b. P a \<Longrightarrow> l \<in> set ls \<Longrightarrow> body a l = Inr b \<Longrightarrow> P b"
  shows "P s'"
  using assms
proof (induction ls arbitrary: s)
  case Nil
  then show ?case by simp
next
  case (Cons l ls)
  from Cons.prems(1) obtain s1 where s1: "body s l = Inr s1" "for_lines body s1 ls = Inr s'"
    by (auto split: sum.splits)
  have p1: "P s1" using Cons.prems(2) s1(1) Cons.prems(3)[of s l s1] by simp
  show ?case
  proof (rule Cons.IH[OF s1(2) p1])
    fix a l' b
    assume "P a" and "l' \<in> set ls" and "body a l' = Inr b"
    then show "P b" using Cons.prems(3)[of a l' b] by simp
  qed
qed

lemma get_or_create_node_index_present:
  "map_of (node_id_index_dict mn node_type) node_id = Some i \<Longrightarrow>
   get_or_create_node_index mn node_type node_id = (i, mn)"
  by (simp add: get_or_create_node_index_def)

lemma get_or_create_node_index_absent:
  "map_of (node_id_index_dict mn node_type) node_id = None \<Longrightarrow>
   get_or_create_node_index mn node_type node_id =
     (num_nodes mn node_type,
      mn\<lparr>node_index_id_dict := (node_index_id_dict mn)
            (node_type := dict_set (node_index_id_dict mn node_type) (num_nodes mn node_type) node_id),
         node_id_index_dict := (node_id_index_dict mn)
            (node_type := node_id_index_dict mn node_type @ [(node_id, num_nodes mn node_type)])\<rparr>)"
  by (simp add: get_or_create_node_index_def Let_def dict_set_absent)

lemma get_or_create_node_index_frame:
  fixes self :: GraphDataset
  assumes "get_or_create_node_index self node_type node_id = (i, self1)"
  shows "edges self1 = edges self" and "node_attr_dict self1 = node_attr_dict self"
    and "ignore_featureless_node self1 = ignore_featureless_node self"
    and "tokenizer self1 = tokenizer self" and "data_dir self1 = data_dir self"
    and "data_format self1 = data_format self"
    and "\<And>ty. ty \<noteq> node_type \<Longrightarrow> node_id_index_dict self1 ty = node_id_index_dict self ty"
    and "map_of (node_id_index_dict self1 node_type) node_id = Some i"
  using assms
  by (auto simp: get_or_create_node_index_def Let_def dict_set_absent map_of_snoc
        simp del: map_of_append split: option.splits)

lemma has_node_id_iff:
  "has_node_id mn node_type node_id \<longleftrightarrow> (\<exists>i. map_of (node_id_index_dict mn node_type) node_id = Some i)"
  by (simp add: has_node_id_def dict_contains_def)

lemma get_node_index_iff:
  "get_node_index mn node_type node_id = Inr i \<longleftrightarrow> map_of (node_id_index_dict mn node_type) node_id = Some i"
  by (simp add: get_node_index_def dict_get_def split: option.splits)

lemma read_adjedges_neighbours_step:
  "\<exists>new. edges (read_adjedges_neighbours self node_index0 node_ids) = edges self @ new \<and>
         list_all edge_ok new \<and>
         (ignore_featureless_node self \<longrightarrow>
            read_adjedges_neighbours self node_index0 node_ids = self\<lparr>edges := edges self @ new\<rparr>)"
proof (induction node_ids arbitrary: self)
  case Nil
  then show ?case by simp
next
  case (Cons node_id1 node_ids)
  show ?case
  proof (cases "ignore_featureless_node self \<and> \<not> has_node_id self N_TYPE_NODE node_id1")
    case True
    with Cons.IH[of self] show ?thesis by simp
  next
    case False
    obtain i1 self1 where g: "get_or_create_node_index self N_TYPE_NODE node_id1 = (i1, self1)"
      by (cases "get_or_create_node_index self N_TYPE_NODE node_id1")
    note fr = get_or_create_node_index_frame[OF g]
    have same: "ignore_featureless_node self \<Longrightarrow> self1 = self"
      using False g by (auto simp: has_node_id_iff get_or_create_node_index_present)
    let ?self2 = "if node_index0 \<noteq> i1
                  then add_edges self1 N_TYPE_NODE N_TYPE_NODE node_index0 i1 1.0 else self1"
    let ?e = "if node_index0 \<noteq> i1 then [(N_TYPE_NODE, N_TYPE_NODE, node_index0, i1, 1::real)] else []"
    have e2: "edges ?self2 = edges self @ ?e" "list_all edge_ok ?e"
      "ignore_featureless_node ?self2 = ignore_featureless_node self"
      "ignore_featureless_node self \<Longrightarrow> ?self2 = self\<lparr>edges := edges self @ ?e\<rparr>"
      using fr(1,3) same by (auto simp: add_edges_def edge_ok_def)
    from Cons.IH[of ?self2] obtain new where
      new: "edges (read_adjedges_neighbours ?self2 node_index0 node_ids) = edges ?self2 @ new"
        "list_all edge_ok new"
        "ignore_featureless_node ?self2 \<longrightarrow>
           read_adjedges_neighbours ?self2 node_index0 node_ids = ?self2\<lparr>edges := edges ?self2 @ new\<rparr>"
      by blast
    have r: "read_adjedges_neighbours self node_index0 (node_id1 # node_ids) =
             read_adjedges_neighbours ?self2 node_index0 node_ids"
      using g by (simp add: Let_def False)
    have "edges (read_adjedges_neighbours self node_index0 (node_id1 # node_ids)) = edges self @ (?e @ new)"
      using r new(1) e2(1) by simp
    moreover have "list_all edge_ok (?e @ new)" using e2(2) new(2) by simp
    moreover have "ignore_featureless_node self \<longrightarrow>
        read_adjedges_neighbours self node_index0 (node_id1 # node_ids) = self\<lparr>edges := edges self @ (?e @ new)\<rparr>"
    proof
      assume ig: "ignore_featureless_node self"
      with e2(3) new(3) have "read_adjedges_neighbours ?self2 node_index0 node_ids =
           ?self2\<lparr>edges := edges ?self2 @ new\<rparr>" by simp
      also have "\<dots> = self\<lparr>edges := edges self @ (?e @ new)\<rparr>"
        using e2(4)[OF ig] by simp
      finally show "read_adjedges_neighbours self node_index0 (node_id1 # node_ids) =
          self\<lparr>edges := edges self @ (?e @ new)\<rparr>" using r by simp
    qed
    ultimately show ?thesis by blast
  qed
qed

lemma read_adjedges_line_step:
  assumes "read_adjedges_line self line = Inr self'"
  shows "\<exists>new. edges self' = edges self @ new \<and> list_all edge_ok new \<and>
           (ignore_featureless_node self \<longrightarrow> self' = self\<lparr>edges := edges self @ new\<rparr>)"
proof (cases "py_split line")
  case Nil
  with assms show ?thesis by (simp add: read_adjedges_line_def)
next
  case (Cons node_id0 node_ids)
  show ?thesis
  proof (cases "ignore_featureless_node self \<and> \<not> has_node_id self N_TYPE_NODE node_id0")
    case True
    with assms Cons have "self' = self" by (simp add: read_adjedges_line_def)
    then have "edges self' = edges self @ [] \<and> list_all edge_ok [] \<and>
           (ignore_featureless_node self \<longrightarrow> self' = self\<lparr>edges := edges self @ []\<rparr>)" by simp
    then show ?thesis by blast
  next
    case False
    obtain i0 self1 where g: "get_or_create_node_index self N_TYPE_NODE node_id0 = (i0, self1)"
      by (cases "get_or_create_node_index self N_TYPE_NODE node_id0")
    note fr = get_or_create_node_index_frame[OF g]
    have same: "ignore_featureless_node self \<Longrightarrow> self1 = self"
      using False g by (auto simp: has_node_id_iff get_or_create_node_index_present)
    from assms Cons False g have r: "self' = read_adjedges_neighbours self1 i0 node_ids"
      by (simp add: read_adjedges_line_def)
    from read_adjedges_neighbours_step[of self1 i0 node_ids] r fr(1,3) same show ?thesis
      by auto
  qed
qed

lemma read_edgelist_edge_step:
  assumes "read_edgelist_edge self node_id0 node_id1 weight = Inr (self', weight')"
  shows "weight' = weight \<and>
         (edges self' = edges self \<or>
          (\<exists>i0 i1 w. weight = Some w \<and> i0 \<noteq> i1 \<and>
              edges self' = edges self @ [(N_TYPE_NODE, N_TYPE_NODE, i0, i1, w)])) \<and>
         (ignore_featureless_node self \<longrightarrow> self' = self\<lparr>edges := edges self'\<rparr>)"
proof (cases "ignore_featureless_node self \<and> \<not> has_node_id self N_TYPE_NODE node_id0")
  case True
  with assms have "self' = self" "weight' = weight"
    by (simp_all add: read_edgelist_edge_def)
  then show ?thesis by simp
next
  case False
  obtain i0 self1 where g0: "get_or_create_node_index self N_TYPE_NODE node_id0 = (i0, self1)"
    by (cases "get_or_create_node_index self N_TYPE_NODE node_id0")
  note fr0 = get_or_create_node_index_frame[OF g0]
  have same0: "ignore_featureless_node self \<Longrightarrow> self1 = self"
    using False g0 by (auto simp: has_node_id_iff get_or_create_node_index_present)
  show ?thesis
  proof (cases "ignore_featureless_node self1 \<and> \<not> has_node_id self1 N_TYPE_NODE node_id1")
    case True
    have "read_edgelist_edge self node_id0 node_id1 weight = Inr (self1, weight)"
      by (simp add: read_edgelist_edge_def False g0 True)
    with assms have "self' = self1" "weight' = weight" by simp_all
    with fr0(1) same0 show ?thesis by auto
  next
    case F1: False
    obtain i1 self2 where g1: "get_or_create_node_index self1 N_TYPE_NODE node_id1 = (i1, self2)"
      by (cases "get_or_create_node_index self1 N_TYPE_NODE node_id1")
    note fr1 = get_or_create_node_index_frame[OF g1]
    have same1: "ignore_featureless_node self \<Longrightarrow> self2 = self"
      using F1 g1 same0 fr0(3) by (auto simp: has_node_id_iff get_or_create_node_index_present)
    have unf: "read_edgelist_edge self node_id0 node_id1 weight =
        (if i0 \<noteq> i1
         then (case weight of None \<Rightarrow> Inl UnboundLocalError
               | Some w \<Rightarrow> Inr (add_edges self2 N_TYPE_NODE N_TYPE_NODE i0 i1 w, weight))
         else Inr (self2, weight))"
      by (simp add: read_edgelist_edge_def False g0 F1 g1)
    show ?thesis
    proof (cases "i0 \<noteq> i1")
      case True
      with assms unf obtain wv where
        wv: "weight = Some wv" "weight' = weight"
          "self' = add_edges self2 N_TYPE_NODE N_TYPE_NODE i0 i1 wv"
        by (cases weight) auto
      have "edges self' = edges self @ [(N_TYPE_NODE, N_TYPE_NODE, i0, i1, wv)]"
        using wv(3) fr0(1) fr1(1) by (simp add: add_edges_def)
      moreover have "ignore_featureless_node self \<longrightarrow> self' = self\<lparr>edges := edges self'\<rparr>"
        using wv(3) same1 by (auto simp: add_edges_def)
      ultimately show ?thesis using wv(1,2) True by blast
    next
      case EQ: False
      with assms unf have "self' = self2" "weight' = weight" by simp_all
      with fr0(1) fr1(1) same1 show ?thesis by auto
    qed
  qed
qed

lemma read_edgelist_line_unfold:
  assumes "read_edgelist_line float_of (self, weight0) line = Inr (self', weight')"
  shows "\<exists>node_id0 node_id1 rest weight.
           py_split line = node_id0 # node_id1 # rest \<and>
           (if length (py_split line) = 3 then float_of (py_split line ! 2) = Some (the weight) \<and> weight \<noteq> None
            else weight = weight0) \<and>
           read_edgelist_edge self node_id0 node_id1 weight = Inr (self', weight')"
proof -
  obtain node_id0 node_id1 rest where items: "py_split line = node_id0 # node_id1 # rest"
  proof (cases "py_split line")
    case Nil
    with assms show ?thesis by (simp add: read_edgelist_line_def)
  next
    case (Cons a as)
    with assms that show ?thesis by (cases as) (simp_all add: read_edgelist_line_def)
  qed
  show ?thesis
  proof (cases "length (py_split line) = 3")
    case True
    show ?thesis
    proof (cases "float_of (py_split line ! 2)")
      case None
      with assms items True show ?thesis by (simp add: read_edgelist_line_def)
    next
      case (Some w)
      with assms items True
      have "read_edgelist_edge self node_id0 node_id1 (Some w) = Inr (self', weight')"
        by (simp add: read_edgelist_line_def)
      with items True Some show ?thesis by force
    qed
  next
    case False
    with assms items
    have "read_edgelist_edge self node_id0 node_id1 weight0 = Inr (self', weight')"
      by (simp add: read_edgelist_line_def)
    with items False show ?thesis by force
  qed
qed

lemma read_edgelist_line_step:
  assumes "read_edgelist_line float_of (self, weight0) line = Inr (self', weight')"
  shows "weight' = (if length (py_split line) = 3 then float_of (py_split line ! 2) else weight0) \<and>
         (length (py_split line) = 3 \<longrightarrow> weight' \<noteq> None) \<and>
         (edges self' = edges self \<or>
          (\<exists>i0 i1 w. weight' = Some w \<and> i0 \<noteq> i1 \<and>
              edges self' = edges self @ [(N_TYPE_NODE, N_TYPE_NODE, i0, i1, w)])) \<and>
         (ignore_featureless_node self \<longrightarrow> self' = self\<lparr>edges := edges self'\<rparr>)"
proof -
  from read_edgelist_line_unfold[OF assms] obtain node_id0 node_id1 rest weight where
    u: "py_split line = node_id0 # node_id1 # rest"
       "if length (py_split line) = 3 then float_of (py_split line ! 2) = Some (the weight) \<and> weight \<noteq> None
        else weight = weight0"
       "read_edgelist_edge self node_id0 node_id1 weight = Inr (self', weight')"
    by blast
  from read_edgelist_edge_step[OF u(3)] have
    e: "weight' = weight"
       "edges self' = edges self \<or>
          (\<exists>i0 i1 w. weight = Some w \<and> i0 \<noteq> i1 \<and>
              edges self' = edges self @ [(N_TYPE_NODE, N_TYPE_NODE, i0, i1, w)])"
       "ignore_featureless_node self \<longrightarrow> self' = self\<lparr>edges := edges self'\<rparr>"
    by blast+
  have w: "weight = (if length (py_split line) = 3 then float_of (py_split line ! 2) else weight0)"
    "length (py_split line) = 3 \<longrightarrow> weight \<noteq> None"
    using u(2) by (auto split: if_splits)
  from e w show ?thesis by simp
qed

lemma read_adjedges_lines_step:
  assumes "for_lines read_adjedges_line self ls = Inr self'"
  shows "\<exists>new. edges self' = edges self @ new \<and> list_all edge_ok new \<and>
           (ignore_featureless_node self \<longrightarrow> self' = self\<lparr>edges := edges self @ new\<rparr>)"
  using assms
proof (induction ls arbitrary: self)
  case Nil
  then have "edges self' = edges self @ [] \<and> list_all edge_ok [] \<and>
           (ignore_featureless_node self \<longrightarrow> self' = self\<lparr>edges := edges self @ []\<rparr>)" by simp
  then show ?case by blast
next
  case (Cons l ls)
  from Cons.prems obtain self1 where
    s1: "read_adjedges_line self l = Inr self1" "for_lines read_adjedges_line self1 ls = Inr self'"
    by (auto split: sum.splits)
  from read_adjedges_line_step[OF s1(1)] obtain n1 where
    n1: "edges self1 = edges self @ n1" "list_all edge_ok n1"
        "ignore_featureless_node self \<longrightarrow> self1 = self\<lparr>edges := edges self @ n1\<rparr>"
    by blast
  from Cons.IH[OF s1(2)] obtain n2 where
    n2: "edges self' = edges self1 @ n2" "list_all edge_ok n2"
        "ignore_featureless_node self1 \<longrightarrow> self' = self1\<lparr>edges := edges self1 @ n2\<rparr>"
    by blast
  have "edges self' = edges self @ (n1 @ n2)" using n1(1) n2(1) by simp
  moreover have "list_all edge_ok (n1 @ n2)" using n1(2) n2(2) by simp
  moreover have "ignore_featureless_node self \<longrightarrow> self' = self\<lparr>edges := edges self @ (n1 @ n2)\<rparr>"
  proof
    assume ig: "ignore_featureless_node self"
    with n1(3) have e1: "self1 = self\<lparr>edges := edges self @ n1\<rparr>" by simp
    then have "ignore_featureless_node self1" using ig by simp
    with n2(3) have "self' = self1\<lparr>edges := edges self1 @ n2\<rparr>" by simp
    also have "\<dots> = self\<lparr>edges := edges self @ (n1 @ n2)\<rparr>" by (subst e1, subst e1) simp
    finally show "self' = self\<lparr>edges := edges self @ (n1 @ n2)\<rparr>" .
  qed
  ultimately show ?case by blast
qed

lemma read_edgelist_lines_step:
  assumes "for_lines (read_edgelist_line float_of) (self, weight0) ls = Inr (self', weight')"
  shows "\<exists>new. edges self' = edges self @ new \<and> list_all edge_ok new \<and>
           (ignore_featureless_node self \<longrightarrow> self' = self\<lparr>edges := edges self @ new\<rparr>) \<and>
           ((\<forall>l\<in>set ls. length (py_split l) \<noteq> 3) \<longrightarrow> weight' = weight0)"
  using assms
proof (induction ls arbitrary: self weight0)
  case Nil
  then have "edges self' = edges self @ [] \<and> list_all edge_ok [] \<and>
           (ignore_featureless_node self \<longrightarrow> self' = self\<lparr>edges := edges self @ []\<rparr>) \<and>
           ((\<forall>l\<in>set []. length (py_split l) \<noteq> 3) \<longrightarrow> weight' = weight0)" by simp
  then show ?case by blast
next
  case (Cons l ls)
  from Cons.prems obtain self1 weight1 where
    s1: "read_edgelist_line float_of (self, weight0) l = Inr (self1, weight1)"
        "for_lines (read_edgelist_line float_of) (self1, weight1) ls = Inr (self', weight')"
    by (auto split: sum.splits)
  from read_edgelist_line_step[OF s1(1)] have
    st: "weight1 = (if length (py_split l) = 3 then float_of (py_split l ! 2) else weight0)"
        "edges self1 = edges self \<or>
          (\<exists>i0 i1 w. weight1 = Some w \<and> i0 \<noteq> i1 \<and>
              edges self1 = edges self @ [(N_TYPE_NODE, N_TYPE_NODE, i0, i1, w)])"
        "ignore_featureless_node self \<longrightarrow> self1 = self\<lparr>edges := edges self1\<rparr>"
    by blast+
  from st(2) obtain n1 where n1: "edges self1 = edges self @ n1" "list_all edge_ok n1"
  proof
    assume "edges self1 = edges self"
    then have "edges self1 = edges self @ []" "list_all edge_ok []" by simp_all
    then show ?thesis by (rule that)
  next
    assume "\<exists>i0 i1 w. weight1 = Some w \<and> i0 \<noteq> i1 \<and>
              edges self1 = edges self @ [(N_TYPE_NODE, N_TYPE_NODE, i0, i1, w)]"
    then obtain i0 i1 w where "i0 \<noteq> i1"
      "edges self1 = edges self @ [(N_TYPE_NODE, N_TYPE_NODE, i0, i1, w)]" by blast
    then have "edges self1 = edges self @ [(N_TYPE_NODE, N_TYPE_NODE, i0, i1, w)]"
      "list_all edge_ok [(N_TYPE_NODE, N_TYPE_NODE, i0, i1, w)]" by (simp_all add: edge_ok_def)
    then show ?thesis by (rule that)
  qed
  from Cons.IH[OF s1(2)] obtain n2 where
    n2: "edges self' = edges self1 @ n2" "list_all edge_ok n2"
        "ignore_featureless_node self1 \<longrightarrow> self' = self1\<lparr>edges := edges self1 @ n2\<rparr>"
        "(\<forall>l\<in>set ls. length (py_split l) \<noteq> 3) \<longrightarrow> weight' = weight1"
    by blast
  have "edges self' = edges self @ (n1 @ n2)" using n1(1) n2(1) by simp
  moreover have "list_all edge_ok (n1 @ n2)" using n1(2) n2(2) by simp
  moreover have "ignore_featureless_node self \<longrightarrow> self' = self\<lparr>edges := edges self @ (n1 @ n2)\<rparr>"
  proof
    assume ig: "ignore_featureless_node self"
    with st(3) n1(1) have e1: "self1 = self\<lparr>edges := edges self @ n1\<rparr>" by simp
    then have "ignore_featureless_node self1" using ig by simp
    with n2(3) have "self' = self1\<lparr>edges := edges self1 @ n2\<rparr>" by simp
    also have "\<dots> = self\<lparr>edges := edges self @ (n1 @ n2)\<rparr>" by (subst e1, subst e1) simp
    finally show "self' = self\<lparr>edges := edges self @ (n1 @ n2)\<rparr>" .
  qed
  moreover have "(\<forall>l\<in>set (l # ls). length (py_split l) \<noteq> 3) \<longrightarrow> weight' = weight0"
    using st(1) n2(4) by simp
  ultimately show ?case by blast
qed

lemma read_structure_step:
  assumes "read_structure float_of self = Inr self'"
  shows "\<exists>new. edges self' = edges self @ new \<and> list_all edge_ok new \<and>
           (ignore_featureless_node self \<longrightarrow> self' = self\<lparr>edges := edges self @ new\<rparr>)"
proof (cases "data_format self = FORMAT_ADJEDGES")
  case True
  with assms obtain ls where "for_lines read_adjedges_line self ls = Inr self'"
    by (auto simp: read_structure_def read_adjedges_def with_open_def split: option.splits)
  then show ?thesis by (rule read_adjedges_lines_step)
next
  case False
  with assms obtain ls weight where
    "for_lines (read_edgelist_line float_of) (self, None) ls = Inr (self', weight)"
    by (auto simp: read_structure_def read_edgelist_def with_open_def split: option.splits sum.splits)
  from read_edgelist_lines_step[OF this] show ?thesis by blast
qed

lemma re_split_ws_1_cases:
  "re_split_ws_1 line = [line] \<or> (\<exists>node_id sentence. re_split_ws_1 line = [node_id, sentence])"
  by (simp add: re_split_ws_1_def Let_def)

lemma read_docs_line_unfold:
  assumes "read_docs_line self line = Inr self'"
  shows "\<exists>node_id sentence node_index self1 token_indices tk.
           re_split_ws_1 line = [node_id, sentence] \<and>
           get_or_create_node_index self N_TYPE_NODE node_id = (node_index, self1) \<and>
           tokenize_to_indices (tokenizer self1) sentence True = Inr (token_indices, tk) \<and>
           self' = set_node_attr (self1\<lparr>tokenizer := tk\<rparr>) N_TYPE_NODE node_index
                     ''features'' (Token_indices token_indices)"
proof -
  from re_split_ws_1_cases[of line] assms obtain node_id sentence where
    sp: "re_split_ws_1 line = [node_id, sentence]"
    by (auto simp: read_docs_line_def)
  obtain node_index self1 where
    g: "get_or_create_node_index self N_TYPE_NODE node_id = (node_index, self1)"
    by (cases "get_or_create_node_index self N_TYPE_NODE node_id")
  show ?thesis
  proof (cases "tokenize_to_indices (tokenizer self1) sentence True")
    case (Inl e)
    with assms sp g show ?thesis by (simp add: read_docs_line_def)
  next
    case (Inr r)
    obtain token_indices tk where r: "r = (token_indices, tk)" by (cases r)
    with assms sp g Inr have
      "self' = set_node_attr (self1\<lparr>tokenizer := tk\<rparr>) N_TYPE_NODE node_index
                     ''features'' (Token_indices token_indices)"
      by (simp add: read_docs_line_def)
    with sp g Inr r show ?thesis by blast
  qed
qed

lemma read_labels_line_unfold:
  assumes "read_labels_line self line = Inr self'"
  shows "\<exists>node_id label_id node_index self1 label_index self2.
           py_split line = [node_id, label_id] \<and>
           (if ignore_featureless_node self
            then get_node_index self N_TYPE_NODE node_id = Inr node_index \<and> self1 = self
            else get_or_create_node_index self N_TYPE_NODE node_id = (node_index, self1)) \<and>
           get_or_create_node_index self1 N_TYPE_LABEL label_id = (label_index, self2) \<and>
           self' = set_node_attr self2 N_TYPE_NODE node_index ''label'' (Label_index label_index)"
proof -
  obtain node_id label_id where sp: "py_split line = [node_id, label_id]"
  proof (cases "py_split line")
    case Nil
    with assms show ?thesis by (simp add: read_labels_line_def)
  next
    case c1: (Cons a as)
    show ?thesis
    proof (cases as)
      case Nil
      with assms c1 show ?thesis by (simp add: read_labels_line_def)
    next
      case c2: (Cons b bs)
      show ?thesis
      proof (cases bs)
        case Nil
        with c1 c2 that show ?thesis by simp
      next
        case (Cons c cs)
        with assms c1 c2 show ?thesis by (simp add: read_labels_line_def)
      qed
    qed
  qed
  show ?thesis
  proof (cases "ignore_featureless_node self")
    case True
    show ?thesis
    proof (cases "get_node_index self N_TYPE_NODE node_id")
      case (Inl e)
      with assms sp True show ?thesis by (simp add: read_labels_line_def)
    next
      case (Inr node_index)
      obtain label_index self2 where
        g: "get_or_create_node_index self N_TYPE_LABEL label_id = (label_index, self2)"
        by (cases "get_or_create_node_index self N_TYPE_LABEL label_id")
      with assms sp True Inr have
        "self' = set_node_attr self2 N_TYPE_NODE node_index ''label'' (Label_index label_index)"
        by (simp add: read_labels_line_def)
      with sp True Inr g show ?thesis by force
    qed
  next
    case False
    obtain node_index self1 where
      g1: "get_or_create_node_index self N_TYPE_NODE node_id = (node_index, self1)"
      by (cases "get_or_create_node_index self N_TYPE_NODE node_id")
    obtain label_index self2 where
      g: "get_or_create_node_index self1 N_TYPE_LABEL label_id = (label_index, self2)"
      by (cases "get_or_create_node_index self1 N_TYPE_LABEL label_id")
    with assms sp False g1 have
      "self' = set_node_attr self2 N_TYPE_NODE node_index ''label'' (Label_index label_index)"
      by (simp add: read_labels_line_def)
    with sp False g1 g show ?thesis by force
  qed
qed


lemma map_of_dict_set: "map_of (dict_set d k v) k' = (if k' = k then Some v else map_of d k')"
  by (simp add: dict_set_def update_conv')

lemma get_or_create_node_index_count:
  assumes "get_or_create_node_index mn ty node_id = (i, mn1)"
  shows "(mn1 = mn \<and> i \<in> snd ` set (node_id_index_dict mn ty)) \<or>
         (i = num_nodes mn ty \<and> num_nodes mn1 ty = Suc (num_nodes mn ty))"
proof (cases "map_of (node_id_index_dict mn ty) node_id")
  case None
  from assms get_or_create_node_index_absent[OF None] show ?thesis
    by (auto simp: num_nodes_def dict_len_def)
next
  case (Some j)
  then have "(node_id, j) \<in> set (node_id_index_dict mn ty)" by (rule map_of_SomeD)
  then have "j \<in> snd ` set (node_id_index_dict mn ty)" by force
  with assms get_or_create_node_index_present[OF Some] show ?thesis by simp
qed

lemma num_tokens_mono:
  assumes "Tokenizer_wf t0" and "Tokenizer_wf t"
    and "\<forall>x j. map_of (token_id_index_dict t0) x = Some j \<longrightarrow> map_of (token_id_index_dict t) x = Some j"
  shows "num_tokens t0 \<le> num_tokens t"
proof (rule ccontr)
  assume "\<not> num_tokens t0 \<le> num_tokens t"
  then have lt: "length (token_id_index_dict t) < length (token_id_index_dict t0)"
    by (simp add: num_tokens_def dict_len_def)
  from assms(1) have w0: "index_dict_wf (token_id_index_dict t0)" by (simp add: Tokenizer_wf_def)
  from assms(2) have w: "index_dict_wf (token_id_index_dict t)" by (simp add: Tokenizer_wf_def)
  from index_dict_wf_nth[OF w0 lt] assms(3)
  have "map_of (token_id_index_dict t)
          (fst (token_id_index_dict t0 ! length (token_id_index_dict t))) =
        Some (length (token_id_index_dict t))" by blast
  from index_dict_wf_bound[OF w this] show False by simp
qed

lemma tokenize_to_indices_create:
  assumes "Tokenizer_wf t" and "tokenize_to_indices t s True = Inr (token_indices, tk)"
  shows "Tokenizer_wf tk" and "\<forall>i\<in>set token_indices. i < num_tokens tk"
    and "num_tokens t \<le> num_tokens tk"
proof -
  from assms(2) obtain token_ids where
    run: "get_or_create_token_indices t token_ids = (token_indices, tk)"
    by (auto simp: tokenize_to_indices_def split: sum.splits)
  note r = get_or_create_token_indices_run[OF assms(1) run]
  from r show wf: "Tokenizer_wf tk" by blast
  from wf have iw: "index_dict_wf (token_id_index_dict tk)" by (simp add: Tokenizer_wf_def)
  show "\<forall>i\<in>set token_indices. i < num_tokens tk"
  proof
    fix i assume "i \<in> set token_indices"
    then obtain k where "k < length token_ids" "token_indices ! k = i"
      using r by (auto simp: in_set_conv_nth)
    with r have "map_of (token_id_index_dict tk) (token_ids ! k) = Some i" by auto
    from index_dict_wf_bound[OF iw this] show "i < num_tokens tk"
      by (simp add: num_tokens_def dict_len_def)
  qed
  from r have "\<forall>x j. map_of (token_id_index_dict t) x = Some j \<longrightarrow>
                  map_of (token_id_index_dict tk) x = Some j" by blast
  with assms(1) wf show "num_tokens t \<le> num_tokens tk" by (rule num_tokens_mono)
qed

lemma read_docs_line_frame:
  assumes "read_docs_line self line = Inr self'"
  shows "edges self' = edges self" and "ignore_featureless_node self' = ignore_featureless_node self"
    and "data_dir self' = data_dir self" and "data_format self' = data_format self"
proof -
  from read_docs_line_unfold[OF assms] obtain node_id sentence node_index self1 token_indices tk where
    u: "get_or_create_node_index self N_TYPE_NODE node_id = (node_index, self1)"
       "self' = set_node_attr (self1\<lparr>tokenizer := tk\<rparr>) N_TYPE_NODE node_index
                     ''features'' (Token_indices token_indices)"
    by blast
  note fr = get_or_create_node_index_frame[OF u(1)]
  from u(2) fr show "edges self' = edges self"
    and "ignore_featureless_node self' = ignore_featureless_node self"
    and "data_dir self' = data_dir self" and "data_format self' = data_format self"
    by (simp_all add: set_node_attr_def)
qed

lemma read_docs_line_features_present:
  assumes "read_docs_line self line = Inr self'" and "features_present self"
  shows "features_present self'"
proof -
  from read_docs_line_unfold[OF assms(1)] obtain node_id sentence node_index self1 token_indices tk where
    u: "get_or_create_node_index self N_TYPE_NODE node_id = (node_index, self1)"
       "self' = set_node_attr (self1\<lparr>tokenizer := tk\<rparr>) N_TYPE_NODE node_index
                     ''features'' (Token_indices token_indices)"
    by blast
  note fr = get_or_create_node_index_frame[OF u(1)]
  have n': "num_nodes self' N_TYPE_NODE = num_nodes self1 N_TYPE_NODE"
    using u(2) by (simp add: set_node_attr_def num_nodes_def)
  have attr: "\<And>j. get_node_attr self' N_TYPE_NODE j ''features'' =
      (if j = node_index then Inr (Token_indices token_indices)
       else get_node_attr self N_TYPE_NODE j ''features'')"
    using u(2) fr(2) by (simp add: get_node_attr_def set_node_attr_def dict_get_def map_of_dict_set)
  show ?thesis unfolding features_present_def
  proof (intro allI impI)
    fix j assume j: "j < num_nodes self' N_TYPE_NODE"
    show "\<exists>toks. get_node_attr self' N_TYPE_NODE j ''features'' = Inr (Token_indices toks)"
    proof (cases "j = node_index")
      case True
      then show ?thesis by (simp add: attr)
    next
      case False
      from get_or_create_node_index_count[OF u(1)] j n' False
      have "j < num_nodes self N_TYPE_NODE" by auto
      with assms(2) False show ?thesis by (simp add: attr features_present_def)
    qed
  qed
qed

lemma read_docs_line_features_bounded:
  assumes "read_docs_line self line = Inr self'"
    and "Tokenizer_wf (tokenizer self) \<and> features_bounded self"
  shows "Tokenizer_wf (tokenizer self') \<and> features_bounded self'"
proof -
  from read_docs_line_unfold[OF assms(1)] obtain node_id sentence node_index self1 token_indices tk where
    u: "get_or_create_node_index self N_TYPE_NODE node_id = (node_index, self1)"
       "tokenize_to_indices (tokenizer self1) sentence True = Inr (token_indices, tk)"
       "self' = set_node_attr (self1\<lparr>tokenizer := tk\<rparr>) N_TYPE_NODE node_index
                     ''features'' (Token_indices token_indices)"
    by blast
  note fr = get_or_create_node_index_frame[OF u(1)]
  from assms(2) fr(4) have wf1: "Tokenizer_wf (tokenizer self1)" by simp
  note tk = tokenize_to_indices_create[OF wf1 u(2)]
  have t': "tokenizer self' = tk" using u(3) by (simp add: set_node_attr_def)
  have attr: "\<And>j. get_node_attr self' N_TYPE_NODE j ''features'' =
      (if j = node_index then Inr (Token_indices token_indices)
       else get_node_attr self N_TYPE_NODE j ''features'')"
    using u(3) fr(2) by (simp add: get_node_attr_def set_node_attr_def dict_get_def map_of_dict_set)
  have "features_bounded self'" unfolding features_bounded_def
  proof (intro allI impI ballI)
    fix j toks t
    assume a: "get_node_attr self' N_TYPE_NODE j ''features'' = Inr (Token_indices toks)"
      and t: "t \<in> set toks"
    show "t < num_tokens (tokenizer self')"
    proof (cases "j = node_index")
      case True
      with a attr have "toks = token_indices" by simp
      with t tk(2) t' show ?thesis by simp
    next
      case False
      with a attr have "get_node_attr self N_TYPE_NODE j ''features'' = Inr (Token_indices toks)"
        by simp
      with assms(2) t have "t < num_tokens (tokenizer self)" by (auto simp: features_bounded_def)
      with tk(3) fr(4) t' show ?thesis by simp
    qed
  qed
  with tk(1) t' show ?thesis by simp
qed

lemma read_labels_line_frame:
  assumes "read_labels_line self line = Inr self'"
  shows "edges self' = edges self" and "ignore_featureless_node self' = ignore_featureless_node self"
    and "data_dir self' = data_dir self" and "data_format self' = data_format self"
    and "tokenizer self' = tokenizer self"
    and "ignore_featureless_node self \<Longrightarrow>
           node_id_index_dict self' N_TYPE_NODE = node_id_index_dict self N_TYPE_NODE"
    and "ignore_featureless_node self \<Longrightarrow>
           get_node_attr self' N_TYPE_NODE j ''features'' = get_node_attr self N_TYPE_NODE j ''features''"
proof -
  from read_labels_line_unfold[OF assms] obtain node_id label_id node_index self1 label_index self2 where
    u: "if ignore_featureless_node self
            then get_node_index self N_TYPE_NODE node_id = Inr node_index \<and> self1 = self
            else get_or_create_node_index self N_TYPE_NODE node_id = (node_index, self1)"
       "get_or_create_node_index self1 N_TYPE_LABEL label_id = (label_index, self2)"
       "self' = set_node_attr self2 N_TYPE_NODE node_index ''label'' (Label_index label_index)"
    by blast
  note fr2 = get_or_create_node_index_frame[OF u(2)]
  have fr1: "edges self1 = edges self \<and> ignore_featureless_node self1 = ignore_featureless_node self \<and>
     data_dir self1 = data_dir self \<and> data_format self1 = data_format self \<and>
     tokenizer self1 = tokenizer self"
  proof (cases "ignore_featureless_node self")
    case True
    with u(1) show ?thesis by simp
  next
    case False
    with u(1) have "get_or_create_node_index self N_TYPE_NODE node_id = (node_index, self1)" by simp
    from get_or_create_node_index_frame[OF this] show ?thesis by simp
  qed
  from u(3) fr1 fr2 show "edges self' = edges self"
    and "ignore_featureless_node self' = ignore_featureless_node self"
    and "data_dir self' = data_dir self" and "data_format self' = data_format self"
    and "tokenizer self' = tokenizer self"
    by (simp_all add: set_node_attr_def)
  show "node_id_index_dict self' N_TYPE_NODE = node_id_index_dict self N_TYPE_NODE"
    if "ignore_featureless_node self"
    using that u(1,3) fr2(7)[of N_TYPE_NODE] by (simp add: set_node_attr_def)
  show "get_node_attr self' N_TYPE_NODE j ''features'' = get_node_attr self N_TYPE_NODE j ''features''"
    if "ignore_featureless_node self"
    using that u(1,3) fr2(2)
    by (simp add: get_node_attr_def set_node_attr_def dict_get_def map_of_dict_set)
qed


lemma read_docs_pass:
  assumes "read_docs self = Inr self'"
  shows "edges self' = edges self \<and> ignore_featureless_node self' = ignore_featureless_node self \<and>
         data_dir self' = data_dir self \<and> data_format self' = data_format self \<and>
         (features_present self \<longrightarrow> features_present self') \<and>
         (Tokenizer_wf (tokenizer self) \<and> features_bounded self \<longrightarrow>
            Tokenizer_wf (tokenizer self') \<and> features_bounded self')"
proof -
  from assms obtain ls where run: "for_lines read_docs_line self ls = Inr self'"
    by (auto simp: read_docs_def with_open_def split: option.splits)
  have a: "edges self' = edges self \<and> ignore_featureless_node self' = ignore_featureless_node self \<and>
         data_dir self' = data_dir self \<and> data_format self' = data_format self"
    by (rule for_lines_invariant[OF run, where P = "\<lambda>s. edges s = edges self \<and>
          ignore_featureless_node s = ignore_featureless_node self \<and>
          data_dir s = data_dir self \<and> data_format s = data_format self"])
       (simp_all add: read_docs_line_frame)
  have b: "features_present self \<longrightarrow> features_present self'"
  proof
    assume "features_present self"
    with run show "features_present self'"
      by (rule for_lines_invariant) (rule read_docs_line_features_present)
  qed
  have c: "Tokenizer_wf (tokenizer self) \<and> features_bounded self \<longrightarrow>
            Tokenizer_wf (tokenizer self') \<and> features_bounded self'"
  proof
    assume "Tokenizer_wf (tokenizer self) \<and> features_bounded self"
    with run show "Tokenizer_wf (tokenizer self') \<and> features_bounded self'"
      by (rule for_lines_invariant) (rule read_docs_line_features_bounded)
  qed
  from a b c show ?thesis by simp
qed

lemma read_labels_lines_frame:
  assumes run: "for_lines read_labels_line self ls = Inr self'"
  shows "edges self' = edges self \<and> ignore_featureless_node self' = ignore_featureless_node self \<and>
         data_dir self' = data_dir self \<and> data_format self' = data_format self \<and>
         tokenizer self' = tokenizer self \<and>
         (ignore_featureless_node self \<longrightarrow>
            node_id_index_dict self' N_TYPE_NODE = node_id_index_dict self N_TYPE_NODE \<and>
            (\<forall>j. get_node_attr self' N_TYPE_NODE j ''features'' =
                 get_node_attr self N_TYPE_NODE j ''features''))"
proof (rule for_lines_invariant[OF run, where P = "\<lambda>s. edges s = edges self \<and>
          ignore_featureless_node s = ignore_featureless_node self \<and>
          data_dir s = data_dir self \<and> data_format s = data_format self \<and>
          tokenizer s = tokenizer self \<and>
          (ignore_featureless_node self \<longrightarrow>
            node_id_index_dict s N_TYPE_NODE = node_id_index_dict self N_TYPE_NODE \<and>
            (\<forall>j. get_node_attr s N_TYPE_NODE j ''features'' =
                 get_node_attr self N_TYPE_NODE j ''features''))"])
  show "edges self = edges self \<and> ignore_featureless_node self = ignore_featureless_node self \<and>
          data_dir self = data_dir self \<and> data_format self = data_format self \<and>
          tokenizer self = tokenizer self \<and>
          (ignore_featureless_node self \<longrightarrow>
            node_id_index_dict self N_TYPE_NODE = node_id_index_dict self N_TYPE_NODE \<and>
            (\<forall>j. get_node_attr self N_TYPE_NODE j ''features'' =
                 get_node_attr self N_TYPE_NODE j ''features''))" by simp
next
  fix a l b
  assume p: "edges a = edges self \<and> ignore_featureless_node a = ignore_featureless_node self \<and>
          data_dir a = data_dir self \<and> data_format a = data_format self \<and>
          tokenizer a = tokenizer self \<and>
          (ignore_featureless_node self \<longrightarrow>
            node_id_index_dict a N_TYPE_NODE = node_id_index_dict self N_TYPE_NODE \<and>
            (\<forall>j. get_node_attr a N_TYPE_NODE j ''features'' =
                 get_node_attr self N_TYPE_NODE j ''features''))"
    and step: "read_labels_line a l = Inr b"
  note fr = read_labels_line_frame[OF step]
  from p fr(1-5) have 1: "edges b = edges self \<and> ignore_featureless_node b = ignore_featureless_node self \<and>
          data_dir b = data_dir self \<and> data_format b = data_format self \<and>
          tokenizer b = tokenizer self" by simp
  have 2: "ignore_featureless_node self \<longrightarrow>
            node_id_index_dict b N_TYPE_NODE = node_id_index_dict self N_TYPE_NODE \<and>
            (\<forall>j. get_node_attr b N_TYPE_NODE j ''features'' =
                 get_node_attr self N_TYPE_NODE j ''features'')"
  proof
    assume ig: "ignore_featureless_node self"
    with p have iga: "ignore_featureless_node a" by simp
    from fr(6)[OF iga] fr(7)[OF iga] p ig
    show "node_id_index_dict b N_TYPE_NODE = node_id_index_dict self N_TYPE_NODE \<and>
            (\<forall>j. get_node_attr b N_TYPE_NODE j ''features'' =
                 get_node_attr self N_TYPE_NODE j ''features'')" by simp
  qed
  from 1 2 show "edges b = edges self \<and> ignore_featureless_node b = ignore_featureless_node self \<and>
          data_dir b = data_dir self \<and> data_format b = data_format self \<and>
          tokenizer b = tokenizer self \<and>
          (ignore_featureless_node self \<longrightarrow>
            node_id_index_dict b N_TYPE_NODE = node_id_index_dict self N_TYPE_NODE \<and>
            (\<forall>j. get_node_attr b N_TYPE_NODE j ''features'' =
                 get_node_attr self N_TYPE_NODE j ''features''))" by simp
qed

lemma read_labels_pass:
  assumes "read_labels self = Inr self'"
  shows "edges self' = edges self \<and> ignore_featureless_node self' = ignore_featureless_node self \<and>
         data_dir self' = data_dir self \<and> data_format self' = data_format self \<and>
         tokenizer self' = tokenizer self \<and>
         (ignore_featureless_node self \<longrightarrow>
            node_id_index_dict self' N_TYPE_NODE = node_id_index_dict self N_TYPE_NODE \<and>
            (\<forall>j. get_node_attr self' N_TYPE_NODE j ''features'' =
                 get_node_attr self N_TYPE_NODE j ''features''))"
proof -
  from assms obtain ls where "for_lines read_labels_line self ls = Inr self'"
    by (auto simp: read_labels_def with_open_def split: option.splits)
  then show ?thesis by (rule read_labels_lines_frame)
qed

lemma GraphDataset_fields_simps:
  "ignore_featureless_node (GraphDataset_fields dir fmt flag tok)"
  "edges (GraphDataset_fields dir fmt flag tok) = []"
  "data_dir (GraphDataset_fields dir fmt flag tok) = dir"
  "data_format (GraphDataset_fields dir fmt flag tok) = fmt"
  "tokenizer (GraphDataset_fields dir fmt flag tok) =
     (case tok of None \<Rightarrow> Tokenizer_init EnglishWordTokenizer | Some t \<Rightarrow> t)"
  "features_present (GraphDataset_fields dir fmt flag tok)"
  "features_bounded (GraphDataset_fields dir fmt flag tok)"
  by (simp_all add: GraphDataset_fields_def features_present_def features_bounded_def
        num_nodes_def dict_len_def get_node_attr_def dict_get_def)

lemma GraphDataset_fields_flag:
  "GraphDataset_fields dir fmt flag tok = GraphDataset_fields dir fmt flag' tok"
  by (simp add: GraphDataset_fields_def)

lemma GraphDataset_init_unfold:
  assumes "GraphDataset_init float_of dir fmt flag tok = Inr self"
  shows "\<exists>self1 self2 new.
           read_docs (GraphDataset_fields dir fmt flag tok) = Inr self1 \<and>
           read_labels self1 = Inr self2 \<and>
           read_structure float_of self2 = Inr self \<and>
           ignore_featureless_node self1 \<and> ignore_featureless_node self2 \<and>
           edges self2 = [] \<and> data_dir self2 = dir \<and> data_format self2 = fmt \<and>
           self = self2\<lparr>edges := new\<rparr> \<and> list_all edge_ok new \<and>
           features_present self1 \<and>
           tokenizer self2 = tokenizer self1 \<and>
           node_id_index_dict self2 N_TYPE_NODE = node_id_index_dict self1 N_TYPE_NODE \<and>
           (\<forall>j. get_node_attr self2 N_TYPE_NODE j ''features'' =
                get_node_attr self1 N_TYPE_NODE j ''features'') \<and>
           ((\<forall>t. tok = Some t \<longrightarrow> Tokenizer_wf t) \<longrightarrow> features_bounded self1)"
proof -
  from assms obtain self1 self2 where
    p: "read_docs (GraphDataset_fields dir fmt flag tok) = Inr self1"
       "read_labels self1 = Inr self2" "read_structure float_of self2 = Inr self"
    by (auto simp: GraphDataset_init_def split: sum.splits)
  note d = read_docs_pass[OF p(1)]
  note l = read_labels_pass[OF p(2)]
  from d have d1: "ignore_featureless_node self1" "edges self1 = []" "data_dir self1 = dir"
    "data_format self1 = fmt" "features_present self1"
    by (simp_all add: GraphDataset_fields_simps)
  from l d1 have l1: "ignore_featureless_node self2" "edges self2 = []" "data_dir self2 = dir"
    "data_format self2 = fmt" "tokenizer self2 = tokenizer self1"
    "node_id_index_dict self2 N_TYPE_NODE = node_id_index_dict self1 N_TYPE_NODE"
    "\<forall>j. get_node_attr self2 N_TYPE_NODE j ''features'' =
                get_node_attr self1 N_TYPE_NODE j ''features''"
    by simp_all
  from read_structure_step[OF p(3)] l1(1,2) obtain new where
    n: "self = self2\<lparr>edges := new\<rparr>" "list_all edge_ok new" by auto
  have b: "(\<forall>t. tok = Some t \<longrightarrow> Tokenizer_wf t) \<longrightarrow> features_bounded self1"
  proof
    assume "\<forall>t. tok = Some t \<longrightarrow> Tokenizer_wf t"
    then have "Tokenizer_wf (tokenizer (GraphDataset_fields dir fmt flag tok))"
      by (cases tok) (simp_all add: GraphDataset_fields_simps Tokenizer_wf_init)
    with d show "features_bounded self1" by (simp add: GraphDataset_fields_simps)
  qed
  from p d1 l1 n b show ?thesis by blast
qed

section \<open>Claims about the constructor\<close>

text \<open>
  C1. Whatever the argument \<open>ignore_featureless_node\<close> is, the field is \<open>True\<close> when the
  passes start, the constructor gives the same result for the argument and for its
  negation, and in every constructed dataset the field is \<open>True\<close>, as it was at the start
  of the labels pass and of the structure pass.
\<close>

theorem ignore_featureless_node_hardcoded:
  "ignore_featureless_node (GraphDataset_fields dir fmt flag tok) = True \<and>
   GraphDataset_init float_of dir fmt flag tok = GraphDataset_init float_of dir fmt (\<not> flag) tok \<and>
   (\<forall>self. GraphDataset_init float_of dir fmt flag tok = Inr self \<longrightarrow>
      ignore_featureless_node self \<and>
      (\<exists>self1 self2.
         read_docs (GraphDataset_fields dir fmt flag tok) = Inr self1 \<and> ignore_featureless_node self1 \<and>
         read_labels self1 = Inr self2 \<and> ignore_featureless_node self2 \<and>
         read_structure float_of self2 = Inr self))"
proof -
  have 1: "ignore_featureless_node (GraphDataset_fields dir fmt flag tok) = True"
    by (simp add: GraphDataset_fields_simps)
  have 2: "GraphDataset_init float_of dir fmt flag tok = GraphDataset_init float_of dir fmt (\<not> flag) tok"
    unfolding GraphDataset_init_def
    by (subst GraphDataset_fields_flag[of dir fmt flag tok "\<not> flag"]) (rule refl)
  have 3: "\<forall>self. GraphDataset_init float_of dir fmt flag tok = Inr self \<longrightarrow>
      ignore_featureless_node self \<and>
      (\<exists>self1 self2.
         read_docs (GraphDataset_fields dir fmt flag tok) = Inr self1 \<and> ignore_featureless_node self1 \<and>
         read_labels self1 = Inr self2 \<and> ignore_featureless_node self2 \<and>
         read_structure float_of self2 = Inr self)"
  proof (intro allI impI)
    fix self assume "GraphDataset_init float_of dir fmt flag tok = Inr self"
    from GraphDataset_init_unfold[OF this] obtain self1 self2 new where
      u: "read_docs (GraphDataset_fields dir fmt flag tok) = Inr self1"
         "read_labels self1 = Inr self2" "read_structure float_of self2 = Inr self"
         "ignore_featureless_node self1" "ignore_featureless_node self2"
         "self = self2\<lparr>edges := new\<rparr>"
      by blast
    from u(5,6) have "ignore_featureless_node self" by simp
    with u show "ignore_featureless_node self \<and>
      (\<exists>self1 self2.
         read_docs (GraphDataset_fields dir fmt flag tok) = Inr self1 \<and> ignore_featureless_node self1 \<and>
         read_labels self1 = Inr self2 \<and> ignore_featureless_node self2 \<and>
         read_structure float_of self2 = Inr self)" by blast
  qed
  from 1 2 3 show ?thesis by blast
qed

theorem ignore_featureless_node_hardcoded_witness:
  "\<not> isl (GraphDataset_init float_of_example example_dir FORMAT_ADJEDGES False None) \<and>
   map_sum id ignore_featureless_node
     (GraphDataset_init float_of_example example_dir FORMAT_ADJEDGES False None) = Inr True"
proof -
  have ok: "\<not> isl (GraphDataset_init float_of_example example_dir FORMAT_ADJEDGES False None)"
    by code_simp
  then obtain self where
    s: "GraphDataset_init float_of_example example_dir FORMAT_ADJEDGES False None = Inr self"
    by (cases "GraphDataset_init float_of_example example_dir FORMAT_ADJEDGES False None") auto
  with ignore_featureless_node_hardcoded[of example_dir FORMAT_ADJEDGES False None float_of_example]
  have "ignore_featureless_node self" by blast
  with ok s show ?thesis by simp
qed

text \<open>
  C4. In either format, from any state, every edge the structure pass adds joins two NODE
  indices that differ; so a pair of identifiers that resolves to one index adds no edge,
  and no constructed dataset has a self-loop.
\<close>

theorem no_self_loops:
  "(\<forall>self'. read_structure float_of self = Inr self' \<longrightarrow>
      (\<exists>new. edges self' = edges self @ new \<and> list_all edge_ok new)) \<and>
   (\<forall>ds. GraphDataset_init float_of dir fmt flag tok = Inr ds \<longrightarrow> list_all edge_ok (edges ds))"
proof -
  have 1: "\<forall>self'. read_structure float_of self = Inr self' \<longrightarrow>
      (\<exists>new. edges self' = edges self @ new \<and> list_all edge_ok new)"
    using read_structure_step by blast
  have 2: "\<forall>ds. GraphDataset_init float_of dir fmt flag tok = Inr ds \<longrightarrow> list_all edge_ok (edges ds)"
  proof (intro allI impI)
    fix ds assume "GraphDataset_init float_of dir fmt flag tok = Inr ds"
    from GraphDataset_init_unfold[OF this] obtain self2 new where
      "ds = self2\<lparr>edges := new\<rparr>" "list_all edge_ok new" by blast
    then show "list_all edge_ok (edges ds)" by simp
  qed
  from 1 2 show ?thesis by (rule conjI)
qed

theorem no_self_loops_witness:
  "map_sum id edges (GraphDataset_init float_of_example example_dir FORMAT_ADJEDGES True None) =
     Inr [(N_TYPE_NODE, N_TYPE_NODE, 0, 1, 1)] \<and>
   list_all edge_ok [(N_TYPE_NODE, N_TYPE_NODE, 0, 1, 1)]"
proof -
  have e: "map_sum id edges (GraphDataset_init float_of_example example_dir FORMAT_ADJEDGES True None) =
     Inr [(N_TYPE_NODE, N_TYPE_NODE, 0, 1, 1)]"
    by code_simp
  then obtain ds where
    s: "GraphDataset_init float_of_example example_dir FORMAT_ADJEDGES True None = Inr ds"
       "edges ds = [(N_TYPE_NODE, N_TYPE_NODE, 0, 1, 1)]"
    by (cases "GraphDataset_init float_of_example example_dir FORMAT_ADJEDGES True None") auto
  from no_self_loops[of float_of_example _ example_dir FORMAT_ADJEDGES True None] s(1)
  have "list_all edge_ok (edges ds)" by blast
  with e s(2) show ?thesis by simp
qed

lemma read_edgelist_edge_present:
  assumes "get_node_index self N_TYPE_NODE node_id0 = Inr i0"
    and "get_node_index self N_TYPE_NODE node_id1 = Inr i1"
  shows "read_edgelist_edge self node_id0 node_id1 weight =
           (if i0 \<noteq> i1
            then (case weight of
                    None \<Rightarrow> Inl UnboundLocalError
                  | Some w \<Rightarrow> Inr (add_edges self N_TYPE_NODE N_TYPE_NODE i0 i1 w, weight))
            else Inr (self, weight))"
proof -
  from assms have m: "map_of (node_id_index_dict self N_TYPE_NODE) node_id0 = Some i0"
    "map_of (node_id_index_dict self N_TYPE_NODE) node_id1 = Some i1"
    by (simp_all add: get_node_index_iff)
  then have h: "has_node_id self N_TYPE_NODE node_id0" "has_node_id self N_TYPE_NODE node_id1"
    by (simp_all add: has_node_id_iff)
  from m have g: "get_or_create_node_index self N_TYPE_NODE node_id0 = (i0, self)"
    "get_or_create_node_index self N_TYPE_NODE node_id1 = (i1, self)"
    by (simp_all add: get_or_create_node_index_present)
  show ?thesis by (simp add: read_edgelist_edge_def h g)
qed

lemma read_edgelist_edge_total:
  "\<exists>self2. read_edgelist_edge self node_id0 node_id1 (Some w) = Inr (self2, Some w)"
proof (cases "ignore_featureless_node self \<and> \<not> has_node_id self N_TYPE_NODE node_id0")
  case True
  then show ?thesis by (simp add: read_edgelist_edge_def)
next
  case False
  obtain i0 self1 where g0: "get_or_create_node_index self N_TYPE_NODE node_id0 = (i0, self1)"
    by (cases "get_or_create_node_index self N_TYPE_NODE node_id0")
  show ?thesis
  proof (cases "ignore_featureless_node self1 \<and> \<not> has_node_id self1 N_TYPE_NODE node_id1")
    case True
    then show ?thesis by (simp add: read_edgelist_edge_def False g0)
  next
    case F1: False
    obtain i1 self2 where g1: "get_or_create_node_index self1 N_TYPE_NODE node_id1 = (i1, self2)"
      by (cases "get_or_create_node_index self1 N_TYPE_NODE node_id1")
    show ?thesis by (simp add: read_edgelist_edge_def False g0 F1 g1)
  qed
qed

lemma read_edgelist_line_two:
  "py_split line = [node_id0, node_id1] \<Longrightarrow>
   read_edgelist_line float_of (self, weight) line = read_edgelist_edge self node_id0 node_id1 weight"
  by (simp add: read_edgelist_line_def)

section \<open>Claims about the edge list\<close>

lemma read_edgelist_lines_weight:
  assumes run: "for_lines (read_edgelist_line float_of) (self, None) (earlier @ l3 # between) =
                  Inr (self1, weight1)"
    and l3: "py_split l3 = [a0, a1, a2]"
    and between: "\<forall>l\<in>set between. length (py_split l) \<noteq> 3"
    and line: "py_split line = [node_id0, node_id1]"
  shows "\<exists>w. float_of a2 = Some w \<and> weight1 = Some w \<and>
           (\<exists>self2. read_edgelist_line float_of (self1, weight1) line = Inr (self2, Some w) \<and>
              (edges self2 = edges self1 \<or>
               (\<exists>i0 i1. i0 \<noteq> i1 \<and> edges self2 = edges self1 @ [(N_TYPE_NODE, N_TYPE_NODE, i0, i1, w)])) \<and>
              (\<forall>i0 i1. get_node_index self1 N_TYPE_NODE node_id0 = Inr i0 \<and>
                       get_node_index self1 N_TYPE_NODE node_id1 = Inr i1 \<and> i0 \<noteq> i1 \<longrightarrow>
                       edges self2 = edges self1 @ [(N_TYPE_NODE, N_TYPE_NODE, i0, i1, w)]))"
proof -
  from run obtain sa wa where
    a: "for_lines (read_edgelist_line float_of) (self, None) earlier = Inr (sa, wa)"
       "for_lines (read_edgelist_line float_of) (sa, wa) (l3 # between) = Inr (self1, weight1)"
    by (auto simp: for_lines_append split: sum.splits)
  from a(2) obtain sb wb where
    b: "read_edgelist_line float_of (sa, wa) l3 = Inr (sb, wb)"
       "for_lines (read_edgelist_line float_of) (sb, wb) between = Inr (self1, weight1)"
    by (auto split: sum.splits)
  from read_edgelist_line_step[OF b(1)] l3 have wb: "wb = float_of a2" "wb \<noteq> None" by auto
  from read_edgelist_lines_step[OF b(2)] between have w1: "weight1 = wb" by blast
  from wb w1 obtain w where w: "float_of a2 = Some w" "weight1 = Some w" by auto
  from read_edgelist_edge_total[of self1 node_id0 node_id1 w] obtain self2 where
    e: "read_edgelist_edge self1 node_id0 node_id1 (Some w) = Inr (self2, Some w)" by blast
  then have r: "read_edgelist_line float_of (self1, weight1) line = Inr (self2, Some w)"
    using line w(2) by (simp add: read_edgelist_line_two)
  from read_edgelist_edge_step[OF e]
  have d: "edges self2 = edges self1 \<or>
               (\<exists>i0 i1. i0 \<noteq> i1 \<and> edges self2 = edges self1 @ [(N_TYPE_NODE, N_TYPE_NODE, i0, i1, w)])"
    by auto
  have p: "\<forall>i0 i1. get_node_index self1 N_TYPE_NODE node_id0 = Inr i0 \<and>
                       get_node_index self1 N_TYPE_NODE node_id1 = Inr i1 \<and> i0 \<noteq> i1 \<longrightarrow>
                       edges self2 = edges self1 @ [(N_TYPE_NODE, N_TYPE_NODE, i0, i1, w)]"
  proof (intro allI impI)
    fix i0 i1
    assume h: "get_node_index self1 N_TYPE_NODE node_id0 = Inr i0 \<and>
               get_node_index self1 N_TYPE_NODE node_id1 = Inr i1 \<and> i0 \<noteq> i1"
    then have "read_edgelist_edge self1 node_id0 node_id1 (Some w) =
                 Inr (add_edges self1 N_TYPE_NODE N_TYPE_NODE i0 i1 w, Some w)"
      by (simp add: read_edgelist_edge_present)
    with e have "self2 = add_edges self1 N_TYPE_NODE N_TYPE_NODE i0 i1 w" by simp
    then show "edges self2 = edges self1 @ [(N_TYPE_NODE, N_TYPE_NODE, i0, i1, w)]"
      by (simp add: add_edges_def)
  qed
  from w r d p show ?thesis by blast
qed

text \<open>
  C2. Let a construction in edgelist format succeed, and let \<open>edgelist.txt\<close> hold a line \<open>l3\<close>
  of exactly three fields, then lines none of which has exactly three fields, then a line
  of two fields. Then \<open>float\<close> of the third field of \<open>l3\<close> gave a weight \<open>w\<close>, which is the
  value of \<open>weight\<close> when the two-field line is read and after it; the edge that line adds,
  if any, has weight \<open>w\<close>, whatever \<open>w\<close> is. When the two identifiers are registered with
  different indices, the line adds that edge with weight \<open>w\<close>, and the constructed dataset
  holds it, after the edges of the lines before and before those of the lines after.
\<close>

theorem edgelist_weight_carried_over:
  assumes init: "GraphDataset_init float_of dir fmt flag tok = Inr ds"
    and fmt: "fmt \<noteq> FORMAT_ADJEDGES"
    and content: "edgelist_txt dir = Some (earlier @ l3 # between @ line # later)"
    and l3: "py_split l3 = [a0, a1, a2]"
    and between: "\<forall>l\<in>set between. length (py_split l) \<noteq> 3"
    and line: "py_split line = [node_id0, node_id1]"
  shows "\<exists>w self0 self1 self2 after.
           float_of a2 = Some w \<and>
           read_structure float_of self0 = Inr ds \<and> edges self0 = [] \<and>
           for_lines (read_edgelist_line float_of) (self0, None) (earlier @ l3 # between) =
             Inr (self1, Some w) \<and>
           read_edgelist_line float_of (self1, Some w) line = Inr (self2, Some w) \<and>
           edges ds = edges self2 @ after \<and>
           (edges self2 = edges self1 \<or>
            (\<exists>i0 i1. i0 \<noteq> i1 \<and> edges self2 = edges self1 @ [(N_TYPE_NODE, N_TYPE_NODE, i0, i1, w)])) \<and>
           (\<forall>i0 i1. get_node_index ds N_TYPE_NODE node_id0 = Inr i0 \<and>
                    get_node_index ds N_TYPE_NODE node_id1 = Inr i1 \<and> i0 \<noteq> i1 \<longrightarrow>
                    edges self2 = edges self1 @ [(N_TYPE_NODE, N_TYPE_NODE, i0, i1, w)] \<and>
                    edges ds = edges self1 @ (N_TYPE_NODE, N_TYPE_NODE, i0, i1, w) # after)"
proof -
  from GraphDataset_init_unfold[OF init] obtain s0 new where
    u: "read_structure float_of s0 = Inr ds" "ignore_featureless_node s0" "edges s0 = []"
       "data_dir s0 = dir" "data_format s0 = fmt" "ds = s0\<lparr>edges := new\<rparr>"
    by blast
  define prefix where "prefix = earlier @ l3 # between"
  have split: "earlier @ l3 # between @ line # later = prefix @ line # later"
    by (simp add: prefix_def)
  from u(1) fmt u(4,5) content obtain wf where
    whole: "for_lines (read_edgelist_line float_of) (s0, None) (prefix @ line # later) = Inr (ds, wf)"
    unfolding split
    by (auto simp: read_structure_def read_edgelist_def with_open_def
          simp del: for_lines.simps split: sum.splits prod.splits)
  have "for_lines (read_edgelist_line float_of) (s0, None) (prefix @ line # later) =
          (case for_lines (read_edgelist_line float_of) (s0, None) prefix of
             Inl e \<Rightarrow> Inl e
           | Inr s1 \<Rightarrow> for_lines (read_edgelist_line float_of) s1 (line # later))"
    by (rule for_lines_append)
  with whole obtain s1 w1 where
    p0: "for_lines (read_edgelist_line float_of) (s0, None) prefix = Inr (s1, w1)"
    and p2: "for_lines (read_edgelist_line float_of) (s1, w1) (line # later) = Inr (ds, wf)"
    by (cases "for_lines (read_edgelist_line float_of) (s0, None) prefix")
       (auto simp del: for_lines.simps)
  from p0 have p1: "for_lines (read_edgelist_line float_of) (s0, None) (earlier @ l3 # between) =
                      Inr (s1, w1)"
    by (simp only: prefix_def)
  note p = p1 p2
  from p(2) obtain sL wL where
    q: "read_edgelist_line float_of (s1, w1) line = Inr (sL, wL)"
       "for_lines (read_edgelist_line float_of) (sL, wL) later = Inr (ds, wf)"
    by (auto split: sum.splits)
  from read_edgelist_lines_weight[OF p(1) l3 between line] obtain w self2 where
    c: "float_of a2 = Some w" "w1 = Some w"
       "read_edgelist_line float_of (s1, w1) line = Inr (self2, Some w)"
       "edges self2 = edges s1 \<or>
          (\<exists>i0 i1. i0 \<noteq> i1 \<and> edges self2 = edges s1 @ [(N_TYPE_NODE, N_TYPE_NODE, i0, i1, w)])"
       "\<forall>i0 i1. get_node_index s1 N_TYPE_NODE node_id0 = Inr i0 \<and>
                get_node_index s1 N_TYPE_NODE node_id1 = Inr i1 \<and> i0 \<noteq> i1 \<longrightarrow>
                edges self2 = edges s1 @ [(N_TYPE_NODE, N_TYPE_NODE, i0, i1, w)]"
    by blast
  from q(1) c(3) have same: "sL = self2" "wL = Some w" by simp_all
  from read_edgelist_lines_step[OF q(2)] same obtain after where
    a: "edges ds = edges self2 @ after" by blast
  from read_edgelist_lines_step[OF p(1)] u(2) obtain n1 where
    "s1 = s0\<lparr>edges := edges s0 @ n1\<rparr>" by blast
  then have "node_id_index_dict s1 = node_id_index_dict s0" by simp
  moreover from u(6) have "node_id_index_dict ds = node_id_index_dict s0" by simp
  ultimately have idx: "\<And>x. get_node_index ds N_TYPE_NODE x = get_node_index s1 N_TYPE_NODE x"
    by (simp add: get_node_index_def)
  have d: "\<forall>i0 i1. get_node_index ds N_TYPE_NODE node_id0 = Inr i0 \<and>
                    get_node_index ds N_TYPE_NODE node_id1 = Inr i1 \<and> i0 \<noteq> i1 \<longrightarrow>
                    edges self2 = edges s1 @ [(N_TYPE_NODE, N_TYPE_NODE, i0, i1, w)] \<and>
                    edges ds = edges s1 @ (N_TYPE_NODE, N_TYPE_NODE, i0, i1, w) # after"
    using c(5) a idx by simp
  have r: "for_lines (read_edgelist_line float_of) (s0, None) (earlier @ l3 # between) =
             Inr (s1, Some w)"
          "read_edgelist_line float_of (s1, Some w) line = Inr (self2, Some w)"
    using p(1) c(2,3) by simp_all
  from c(1) u(1,3) r a c(4) d show ?thesis by blast
qed

theorem edgelist_weight_carried_over_witness:
  "\<exists>ds before after.
     GraphDataset_init float_of_example example_dir FORMAT_EDGELIST True None = Inr ds \<and>
     edges ds = before @ (N_TYPE_NODE, N_TYPE_NODE, 1, 0, 2.5) # after \<and>
     edges ds = [(N_TYPE_NODE, N_TYPE_NODE, 0, 1, 2.5), (N_TYPE_NODE, N_TYPE_NODE, 1, 0, 2.5)]"
proof -
  have chk: "case GraphDataset_init float_of_example example_dir FORMAT_EDGELIST True None of
               Inl e \<Rightarrow> False
             | Inr ds \<Rightarrow>
                 get_node_index ds N_TYPE_NODE ''n2'' = Inr 1 \<and>
                 get_node_index ds N_TYPE_NODE ''n1'' = Inr 0 \<and>
                 edges ds = [(N_TYPE_NODE, N_TYPE_NODE, 0, 1, 2.5),
                             (N_TYPE_NODE, N_TYPE_NODE, 1, 0, 2.5)]"
    by code_simp
  then obtain ds where
    init: "GraphDataset_init float_of_example example_dir FORMAT_EDGELIST True None = Inr ds"
    and idx: "get_node_index ds N_TYPE_NODE ''n2'' = Inr 1"
             "get_node_index ds N_TYPE_NODE ''n1'' = Inr 0"
    and e: "edges ds = [(N_TYPE_NODE, N_TYPE_NODE, 0, 1, 2.5),
                        (N_TYPE_NODE, N_TYPE_NODE, 1, 0, 2.5)]"
    by (auto split: sum.splits)
  have fmt: "FORMAT_EDGELIST \<noteq> FORMAT_ADJEDGES"
    by (simp add: FORMAT_EDGELIST_def FORMAT_ADJEDGES_def)
  have content: "edgelist_txt example_dir =
      Some ([] @ (''n1 n2 2.5'' @ [CHR 0x0A]) # [] @ (''n2 n1'' @ [CHR 0x0A]) # [])"
    by (simp add: example_dir_def)
  have l3: "py_split (''n1 n2 2.5'' @ [CHR 0x0A]) = [''n1'', ''n2'', ''2.5'']" by code_simp
  have line: "py_split (''n2 n1'' @ [CHR 0x0A]) = [''n2'', ''n1'']" by code_simp
  have between: "\<forall>l\<in>set []. length (py_split l) \<noteq> 3" by simp
  from edgelist_weight_carried_over[OF init fmt content l3 between line]
  obtain w and self1 self2 :: GraphDataset and after where
    w: "float_of_example ''2.5'' = Some w"
    and a: "\<forall>i0 i1. get_node_index ds N_TYPE_NODE ''n2'' = Inr i0 \<and>
                    get_node_index ds N_TYPE_NODE ''n1'' = Inr i1 \<and> i0 \<noteq> i1 \<longrightarrow>
                    edges self2 = edges self1 @ [(N_TYPE_NODE, N_TYPE_NODE, i0, i1, w)] \<and>
                    edges ds = edges self1 @ (N_TYPE_NODE, N_TYPE_NODE, i0, i1, w) # after"
    by blast
  from a idx have w2: "edges ds = edges self1 @ (N_TYPE_NODE, N_TYPE_NODE, 1, 0, w) # after"
    by simp
  from w have "w = 2.5" by (simp add: float_of_example_def)
  with w2 init e show ?thesis by blast
qed

text \<open>
  C9, as the claim states it, fails on a line whose two fields are the same registered
  node: both endpoints pass the filter, the indices are equal, \<open>add_edges\<close> is not reached
  and \<open>weight\<close> is never read. The construction succeeds, with no edge.
\<close>

theorem edgelist_unbound_weight_counterexample:
  "py_split (''n1 n1'' @ [CHR 0x0A]) = [''n1'', ''n1''] \<and>
   \<not> isl (GraphDataset_init float_of_example self_loop_dir FORMAT_EDGELIST True None) \<and>
   map_sum id edges (GraphDataset_init float_of_example self_loop_dir FORMAT_EDGELIST True None) =
     Inr []"
  by code_simp

text \<open>
  C9, amended. After a document pass and a labels pass that succeeded, in edgelist format,
  let the loop have run without failure over earlier lines none of which has exactly three
  fields. A line of two fields whose identifiers are registered with different indices then
  fails with \<open>UnboundLocalError\<close>, and so does the construction.
\<close>

theorem edgelist_unbound_weight:
  assumes docs: "read_docs (GraphDataset_fields dir fmt flag tok) = Inr self0"
    and labels: "read_labels self0 = Inr self"
    and fmt: "fmt \<noteq> FORMAT_ADJEDGES"
    and content: "edgelist_txt dir = Some (earlier @ line # later)"
    and earlier: "\<forall>l\<in>set earlier. length (py_split l) \<noteq> 3"
    and run: "for_lines (read_edgelist_line float_of) (self, None) earlier = Inr (self1, weight1)"
    and line: "py_split line = [node_id0, node_id1]"
    and i0: "get_node_index self1 N_TYPE_NODE node_id0 = Inr i0"
    and i1: "get_node_index self1 N_TYPE_NODE node_id1 = Inr i1"
    and neq: "i0 \<noteq> i1"
  shows "read_edgelist_line float_of (self1, weight1) line = Inl UnboundLocalError \<and>
         GraphDataset_init float_of dir fmt flag tok = Inl UnboundLocalError"
proof -
  from read_edgelist_lines_step[OF run] earlier have w1: "weight1 = None" by blast
  have l: "read_edgelist_line float_of (self1, weight1) line = Inl UnboundLocalError"
    using line w1 neq by (simp add: read_edgelist_line_two read_edgelist_edge_present[OF i0 i1])
  have loop: "for_lines (read_edgelist_line float_of) (self, None) (earlier @ line # later) =
                Inl UnboundLocalError"
    using run l by (simp add: for_lines_append)
  from read_docs_pass[OF docs] read_labels_pass[OF labels]
  have fr: "data_dir self = dir" "data_format self = fmt"
    by (simp_all add: GraphDataset_fields_simps)
  have "read_structure float_of self = Inl UnboundLocalError"
    using fr fmt content loop by (simp add: read_structure_def read_edgelist_def with_open_def)
  with docs labels have "GraphDataset_init float_of dir fmt flag tok = Inl UnboundLocalError"
    by (simp add: GraphDataset_init_def)
  with l show ?thesis by (rule conjI)
qed

theorem edgelist_unbound_weight_witness:
  "py_split (''n1 n2'' @ [CHR 0x0A]) = [''n1'', ''n2''] \<and>
   GraphDataset_init float_of_example unbound_weight_dir FORMAT_EDGELIST True None =
     Inl UnboundLocalError"
proof -
  have chk: "case read_docs (GraphDataset_fields unbound_weight_dir FORMAT_EDGELIST True None) of
               Inl e \<Rightarrow> False
             | Inr s0 \<Rightarrow>
                 (case read_labels s0 of
                    Inl e \<Rightarrow> False
                  | Inr s \<Rightarrow>
                      get_node_index s N_TYPE_NODE ''n1'' = Inr 0 \<and>
                      get_node_index s N_TYPE_NODE ''n2'' = Inr 1)"
    by code_simp
  then obtain s0 s where
    docs: "read_docs (GraphDataset_fields unbound_weight_dir FORMAT_EDGELIST True None) = Inr s0"
    and labels: "read_labels s0 = Inr s"
    and i0: "get_node_index s N_TYPE_NODE ''n1'' = Inr 0"
    and i1: "get_node_index s N_TYPE_NODE ''n2'' = Inr 1"
    by (auto split: sum.splits)
  have fmt: "FORMAT_EDGELIST \<noteq> FORMAT_ADJEDGES"
    by (simp add: FORMAT_EDGELIST_def FORMAT_ADJEDGES_def)
  have content: "edgelist_txt unbound_weight_dir = Some ([] @ (''n1 n2'' @ [CHR 0x0A]) # [])"
    by (simp add: unbound_weight_dir_def)
  have earlier: "\<forall>l\<in>set []. length (py_split l) \<noteq> 3" by simp
  have run: "for_lines (read_edgelist_line float_of_example) (s, None) [] = Inr (s, None)" by simp
  have line: "py_split (''n1 n2'' @ [CHR 0x0A]) = [''n1'', ''n2'']" by code_simp
  have neq: "(0::nat) \<noteq> 1" by simp
  from edgelist_unbound_weight[OF docs labels fmt content earlier run line i0 i1 neq] line
  show ?thesis by simp
qed

section \<open>Claims about the labels pass\<close>

text \<open>
  C6. After a document pass that succeeded, let the labels pass have run without failure
  over the earlier lines of \<open>labels.txt\<close>. A line \<open>node_id label_id\<close> whose \<open>node_id\<close> the
  document pass did not register fails with \<open>KeyError\<close>, and so does the construction,
  whatever the argument \<open>ignore_featureless_node\<close> was; the labels pass created no NODE
  index before it. From the same state with the field set to \<open>False\<close>, the line succeeds and
  registers \<open>node_id\<close> under the next NODE index.
\<close>

theorem label_of_unregistered_node:
  assumes docs: "read_docs (GraphDataset_fields dir fmt flag tok) = Inr self1"
    and content: "labels_txt dir = Some (earlier @ line # later)"
    and run: "for_lines read_labels_line self1 earlier = Inr self2"
    and line: "py_split line = [node_id, label_id]"
    and unknown: "\<not> has_node_id self1 N_TYPE_NODE node_id"
  shows "read_labels_line self2 line = Inl KeyError \<and>
         GraphDataset_init float_of dir fmt flag tok = Inl KeyError \<and>
         num_nodes self2 N_TYPE_NODE = num_nodes self1 N_TYPE_NODE \<and>
         (\<exists>self3. read_labels_line (self2\<lparr>ignore_featureless_node := False\<rparr>) line = Inr self3 \<and>
                  has_node_id self3 N_TYPE_NODE node_id \<and>
                  num_nodes self3 N_TYPE_NODE = Suc (num_nodes self2 N_TYPE_NODE))"
proof -
  from read_docs_pass[OF docs] have d: "ignore_featureless_node self1" "data_dir self1 = dir"
    by (simp_all add: GraphDataset_fields_simps)
  from read_labels_lines_frame[OF run] d(1)
  have f: "ignore_featureless_node self2"
    "node_id_index_dict self2 N_TYPE_NODE = node_id_index_dict self1 N_TYPE_NODE"
    by simp_all
  from unknown f(2) have none: "map_of (node_id_index_dict self2 N_TYPE_NODE) node_id = None"
    by (simp add: has_node_id_def dict_contains_def)
  then have k: "get_node_index self2 N_TYPE_NODE node_id = Inl KeyError"
    by (simp add: get_node_index_def dict_get_def)
  have l: "read_labels_line self2 line = Inl KeyError"
    using line f(1) k by (simp add: read_labels_line_def)
  have "for_lines read_labels_line self1 (earlier @ line # later) = Inl KeyError"
    using run l by (simp add: for_lines_append)
  then have "read_labels self1 = Inl KeyError"
    using d(2) content by (simp add: read_labels_def with_open_def)
  with docs have c: "GraphDataset_init float_of dir fmt flag tok = Inl KeyError"
    by (simp add: GraphDataset_init_def)
  have n: "num_nodes self2 N_TYPE_NODE = num_nodes self1 N_TYPE_NODE"
    using f(2) by (simp add: num_nodes_def)
  let ?s = "self2\<lparr>ignore_featureless_node := False\<rparr>"
  have none': "map_of (node_id_index_dict ?s N_TYPE_NODE) node_id = None" using none by simp
  obtain i sa where ga: "get_or_create_node_index ?s N_TYPE_NODE node_id = (i, sa)"
    by (cases "get_or_create_node_index ?s N_TYPE_NODE node_id")
  obtain j sb where gb: "get_or_create_node_index sa N_TYPE_LABEL label_id = (j, sb)"
    by (cases "get_or_create_node_index sa N_TYPE_LABEL label_id")
  let ?s3 = "set_node_attr sb N_TYPE_NODE i ''label'' (Label_index j)"
  have r: "read_labels_line ?s line = Inr ?s3"
    using line ga gb by (simp add: read_labels_line_def)
  note fa = get_or_create_node_index_frame[OF ga]
  note fb = get_or_create_node_index_frame[OF gb]
  have dict3: "node_id_index_dict ?s3 N_TYPE_NODE = node_id_index_dict sa N_TYPE_NODE"
    using fb(7)[of N_TYPE_NODE] by (simp add: set_node_attr_def)
  have h: "has_node_id ?s3 N_TYPE_NODE node_id"
    using fa(8) dict3 by (simp add: has_node_id_iff)
  from ga get_or_create_node_index_absent[OF none']
  have "num_nodes sa N_TYPE_NODE = Suc (num_nodes ?s N_TYPE_NODE)"
    by (auto simp: num_nodes_def dict_len_def)
  then have c3: "num_nodes ?s3 N_TYPE_NODE = Suc (num_nodes self2 N_TYPE_NODE)"
    using dict3 by (simp add: num_nodes_def)
  from l c n r h c3 show ?thesis by blast
qed


theorem label_of_unregistered_node_witness:
  "py_split (''n9 L1'' @ [CHR 0x0A]) = [''n9'', ''L1''] \<and>
   GraphDataset_init float_of_example unknown_label_dir FORMAT_ADJEDGES False None = Inl KeyError"
proof -
  have chk: "case read_docs (GraphDataset_fields unknown_label_dir FORMAT_ADJEDGES False None) of
               Inl e \<Rightarrow> False
             | Inr s1 \<Rightarrow>
                 \<not> has_node_id s1 N_TYPE_NODE ''n9'' \<and>
                 \<not> isl (for_lines read_labels_line s1 [''n1 L0'' @ [CHR 0x0A]])"
    by code_simp
  then obtain s1 s2 where
    docs: "read_docs (GraphDataset_fields unknown_label_dir FORMAT_ADJEDGES False None) = Inr s1"
    and unknown: "\<not> has_node_id s1 N_TYPE_NODE ''n9''"
    and run: "for_lines read_labels_line s1 [''n1 L0'' @ [CHR 0x0A]] = Inr s2"
    by (auto split: sum.splits simp: isl_def)
  have content: "labels_txt unknown_label_dir =
      Some ([''n1 L0'' @ [CHR 0x0A]] @ (''n9 L1'' @ [CHR 0x0A]) # [])"
    by (simp add: unknown_label_dir_def)
  have line: "py_split (''n9 L1'' @ [CHR 0x0A]) = [''n9'', ''L1'']" by code_simp
  from label_of_unregistered_node[OF docs content run line unknown] line
  show ?thesis by simp
qed

section \<open>Claims about the feature matrix\<close>

lemma feature_entries_eq:
  assumes "\<forall>i\<in>set ns. \<exists>toks. get_node_attr self N_TYPE_NODE i ''features'' = Inr (Token_indices toks)"
  shows "feature_entries self ns =
           Inr (concat (map (\<lambda>i. map (\<lambda>t. (1, i, t)) (features_of self i)) ns))"
  using assms
proof (induction ns)
  case Nil
  then show ?case by simp
next
  case (Cons i ns)
  from Cons.prems obtain toks where
    t: "get_node_attr self N_TYPE_NODE i ''features'' = Inr (Token_indices toks)" by auto
  then have f: "features_of self i = toks" by (simp add: features_of_def)
  from Cons.IH Cons.prems have
    "feature_entries self ns = Inr (concat (map (\<lambda>i. map (\<lambda>t. (1, i, t)) (features_of self i)) ns))"
    by simp
  with t f show ?case by simp
qed

lemma cell_inner:
  "sum_list (map fst (filter (\<lambda>(d, r, c). r = i \<and> c = j) (map (\<lambda>t. (1::int, k, t)) xs))) =
     (if k = i then int (count_list xs j) else 0)"
  by (induction xs) auto

lemma cell_concat:
  "sum_list (map fst (filter (\<lambda>(d, r, c). r = i \<and> c = j)
       (concat (map (\<lambda>k. map (\<lambda>t. (1::int, k, t)) (f k)) ns)))) =
     (\<Sum>k\<leftarrow>ns. if k = i then int (count_list (f k) j) else 0)"
proof (induction ns)
  case Nil
  then show ?case by simp
next
  case (Cons k ns)
  then show ?case by (simp add: cell_inner del: count_list.simps)
qed

lemma sum_list_indicator_absent:
  "i \<notin> set xs \<Longrightarrow> (\<Sum>k\<leftarrow>xs. if k = i then g k else (0::int)) = 0"
  by (induction xs) auto

lemma sum_list_indicator:
  "i < m \<Longrightarrow> (\<Sum>k\<leftarrow>[0..<m]. if k = i then g k else (0::int)) = g i"
proof (induction m)
  case 0
  then show ?case by simp
next
  case (Suc m)
  show ?case
  proof (cases "i = m")
    case True
    have "i \<notin> set [0..<m]" using True by simp
    then have "(\<Sum>k\<leftarrow>[0..<m]. if k = i then g k else (0::int)) = 0"
      by (rule sum_list_indicator_absent)
    with True show ?thesis by simp
  next
    case False
    with Suc show ?thesis by simp
  qed
qed

lemma csr_matrix_ok:
  assumes "\<forall>(d, r, c)\<in>set entries. r < m \<and> c < n"
  shows "csr_matrix entries (m, n) =
           Inr (Csr_matrix (m, n)
                  (map (\<lambda>i. map (\<lambda>j. sum_list (map fst (filter (\<lambda>(d, r, c). r = i \<and> c = j) entries)))
                               [0..<n])
                       [0..<m]))"
proof -
  from assms have "\<not> list_ex (\<lambda>(d, r, c). \<not> r < m \<or> \<not> c < n) entries"
    by (auto simp: list_ex_iff)
  then show ?thesis by (simp add: csr_matrix_def)
qed

text \<open>
  C10. In every constructed dataset the NODE identifiers are those the document pass
  registered, every NODE index below \<open>num_nodes\<close> carries a \<open>features\<close> attribute that is
  a list of token indices, and the attribute lookups of \<open>feature_matrix\<close> over
  \<open>range(num_nodes)\<close> do not fail.
\<close>

theorem features_always_present:
  assumes "GraphDataset_init float_of dir fmt flag tok = Inr self"
  shows "(\<exists>self1. read_docs (GraphDataset_fields dir fmt flag tok) = Inr self1 \<and>
                  node_id_index_dict self N_TYPE_NODE = node_id_index_dict self1 N_TYPE_NODE) \<and>
         (\<forall>i<num_nodes self N_TYPE_NODE.
            \<exists>token_indices.
              get_node_attr self N_TYPE_NODE i ''features'' = Inr (Token_indices token_indices)) \<and>
         (\<exists>entries. feature_entries self [0..<num_nodes self N_TYPE_NODE] = Inr entries)"
proof -
  from GraphDataset_init_unfold[OF assms] obtain self1 self2 new where
    u: "read_docs (GraphDataset_fields dir fmt flag tok) = Inr self1"
       "self = self2\<lparr>edges := new\<rparr>" "features_present self1"
       "node_id_index_dict self2 N_TYPE_NODE = node_id_index_dict self1 N_TYPE_NODE"
       "\<forall>j. get_node_attr self2 N_TYPE_NODE j ''features'' =
            get_node_attr self1 N_TYPE_NODE j ''features''"
    by blast
  have d: "node_id_index_dict self N_TYPE_NODE = node_id_index_dict self1 N_TYPE_NODE"
    using u(2,4) by simp
  have a: "\<And>j. get_node_attr self N_TYPE_NODE j ''features'' =
               get_node_attr self1 N_TYPE_NODE j ''features''"
    using u(2,5) by (simp add: get_node_attr_def)
  have p: "\<forall>i<num_nodes self N_TYPE_NODE.
            \<exists>token_indices.
              get_node_attr self N_TYPE_NODE i ''features'' = Inr (Token_indices token_indices)"
    using u(3) d a by (simp add: features_present_def num_nodes_def)
  then have "\<forall>i\<in>set [0..<num_nodes self N_TYPE_NODE].
      \<exists>toks. get_node_attr self N_TYPE_NODE i ''features'' = Inr (Token_indices toks)" by simp
  from feature_entries_eq[OF this]
  have e: "\<exists>entries. feature_entries self [0..<num_nodes self N_TYPE_NODE] = Inr entries" by blast
  from u(1) d p e show ?thesis by blast
qed

lemma float32_of_int_nat: "float32_of_int (int n) = float32_of_nat n"
  by (simp add: float32_of_int_def)

lemma bit_length_2_24: "bit_length 16777216 = 25" "bit_length 16777217 = 25"
  by (simp_all add: bit_length.simps)

lemma float32_of_nat_exact: "n \<le> 16777216 \<Longrightarrow> float32_of_nat n = real n"
proof (cases "n < 2 ^ 24")
  case True
  then show ?thesis by (simp add: float32_of_nat_def)
next
  case False
  assume "n \<le> 16777216"
  with False have n: "n = 16777216" by simp
  have "float32_of_nat 16777216 = real 16777216"
    by (simp add: float32_of_nat_def bit_length_2_24 Let_def)
  with n show ?thesis by simp
qed

lemma float32_of_nat_rounds: "float32_of_nat 16777217 = 16777216"
  by (simp add: float32_of_nat_def bit_length_2_24 Let_def)

lemma feature_matrix_of_constructed:
  assumes init: "GraphDataset_init float_of dir fmt flag tok = Inr self"
    and tok: "\<forall>t. tok = Some t \<longrightarrow> Tokenizer_wf t"
  shows "\<exists>rows.
           feature_matrix self True True =
             Inr (Csr_matrix (num_nodes self N_TYPE_NODE, num_tokens (tokenizer self)) rows) \<and>
           feature_matrix self True False =
             Inr (Dense_float32 (num_nodes self N_TYPE_NODE, num_tokens (tokenizer self))
                    (map (map float32_of_int) rows)) \<and>
           length rows = num_nodes self N_TYPE_NODE \<and>
           (\<forall>n<num_nodes self N_TYPE_NODE.
              length (rows ! n) = num_tokens (tokenizer self) \<and>
              (\<exists>token_indices.
                 get_node_attr self N_TYPE_NODE n ''features'' = Inr (Token_indices token_indices) \<and>
                 (\<forall>t<num_tokens (tokenizer self).
                    rows ! n ! t = int (count_list token_indices t) \<and>
                    float32_of_int (rows ! n ! t) = float32_of_nat (count_list token_indices t) \<and>
                    (count_list token_indices t \<le> 16777216 \<longrightarrow>
                       float32_of_int (rows ! n ! t) = real (count_list token_indices t)))))"
proof -
  from GraphDataset_init_unfold[OF init] tok obtain self1 self2 new where
    u: "self = self2\<lparr>edges := new\<rparr>" "features_present self1" "features_bounded self1"
       "tokenizer self2 = tokenizer self1"
       "node_id_index_dict self2 N_TYPE_NODE = node_id_index_dict self1 N_TYPE_NODE"
       "\<forall>j. get_node_attr self2 N_TYPE_NODE j ''features'' =
            get_node_attr self1 N_TYPE_NODE j ''features''"
    by blast
  define m where "m = num_nodes self N_TYPE_NODE"
  define n where "n = num_tokens (tokenizer self)"
  have a: "\<And>j. get_node_attr self N_TYPE_NODE j ''features'' =
               get_node_attr self1 N_TYPE_NODE j ''features''"
    using u(1,6) by (simp add: get_node_attr_def)
  have m1: "m = num_nodes self1 N_TYPE_NODE" using u(1,5) by (simp add: m_def num_nodes_def)
  have n1: "n = num_tokens (tokenizer self1)" using u(1,4) by (simp add: n_def)
  have present: "\<forall>i<m. \<exists>toks. get_node_attr self N_TYPE_NODE i ''features'' = Inr (Token_indices toks)"
    using u(2) a m1 by (simp add: features_present_def)
  have bounded: "\<And>i toks t. get_node_attr self N_TYPE_NODE i ''features'' = Inr (Token_indices toks)
      \<Longrightarrow> t \<in> set toks \<Longrightarrow> t < n"
    using u(3) a n1 by (auto simp: features_bounded_def)
  let ?entries = "concat (map (\<lambda>i. map (\<lambda>t. (1::int, i, t)) (features_of self i)) [0..<m])"
  have fe: "feature_entries self [0..<m] = Inr ?entries"
    using present by (intro feature_entries_eq) simp
  have inside: "\<forall>(d, r, c)\<in>set ?entries. r < m \<and> c < n"
  proof (clarify)
    fix d r c assume "(d, r, c) \<in> set ?entries"
    then have r: "r < m" and c: "c \<in> set (features_of self r)" by auto
    from present r obtain toks where
      t: "get_node_attr self N_TYPE_NODE r ''features'' = Inr (Token_indices toks)" by blast
    then have "features_of self r = toks" by (simp add: features_of_def)
    with c bounded[OF t] r show "r < m \<and> c < n" by simp
  qed
  let ?cell = "\<lambda>i j. sum_list (map fst (filter (\<lambda>(d, r, c). r = i \<and> c = j) ?entries))"
  let ?rows = "map (\<lambda>i. map (\<lambda>j. ?cell i j) [0..<n]) [0..<m]"
  have csr: "csr_matrix ?entries (m, n) = Inr (Csr_matrix (m, n) ?rows)"
    using inside by (rule csr_matrix_ok)
  have sparse: "feature_matrix self True True = Inr (Csr_matrix (m, n) ?rows)"
    using fe csr by (simp add: feature_matrix_def Let_def m_def[symmetric] n_def[symmetric])
  have dense: "feature_matrix self True False =
                 Inr (Dense_float32 (m, n) (map (map float32_of_int) ?rows))"
    using fe csr by (simp add: feature_matrix_def Let_def m_def[symmetric] n_def[symmetric])
  have len: "length ?rows = m" by simp
  have cells: "\<forall>k<m. length (?rows ! k) = n \<and>
              (\<exists>token_indices.
                 get_node_attr self N_TYPE_NODE k ''features'' = Inr (Token_indices token_indices) \<and>
                 (\<forall>t<n. ?rows ! k ! t = int (count_list token_indices t) \<and>
                    float32_of_int (?rows ! k ! t) = float32_of_nat (count_list token_indices t) \<and>
                    (count_list token_indices t \<le> 16777216 \<longrightarrow>
                       float32_of_int (?rows ! k ! t) = real (count_list token_indices t))))"
  proof (intro allI impI)
    fix k assume k: "k < m"
    from present k obtain toks where
      t: "get_node_attr self N_TYPE_NODE k ''features'' = Inr (Token_indices toks)" by blast
    then have f: "features_of self k = toks" by (simp add: features_of_def)
    note t
    moreover have "\<forall>t<n. ?rows ! k ! t = int (count_list toks t) \<and>
                    float32_of_int (?rows ! k ! t) = float32_of_nat (count_list toks t) \<and>
                    (count_list toks t \<le> 16777216 \<longrightarrow>
                       float32_of_int (?rows ! k ! t) = real (count_list toks t))"
    proof (intro allI impI)
      fix j assume j: "j < n"
      have "?rows ! k ! j = ?cell k j" using k j by simp
      also have "\<dots> = (\<Sum>i\<leftarrow>[0..<m]. if i = k then int (count_list (features_of self i) j) else 0)"
        by (rule cell_concat)
      also have "\<dots> = int (count_list (features_of self k) j)"
        using k by (rule sum_list_indicator)
      finally have c: "?rows ! k ! j = int (count_list toks j)" using f by simp
      have "float32_of_int (int (count_list toks j)) = float32_of_nat (count_list toks j)"
        by (rule float32_of_int_nat)
      with c show "?rows ! k ! j = int (count_list toks j) \<and>
                    float32_of_int (?rows ! k ! j) = float32_of_nat (count_list toks j) \<and>
                    (count_list toks j \<le> 16777216 \<longrightarrow>
                       float32_of_int (?rows ! k ! j) = real (count_list toks j))"
        by (simp add: float32_of_nat_exact)
    qed
    moreover have "length (?rows ! k) = n" using k by simp
    ultimately show "length (?rows ! k) = n \<and>
              (\<exists>token_indices.
                 get_node_attr self N_TYPE_NODE k ''features'' = Inr (Token_indices token_indices) \<and>
                 (\<forall>t<n. ?rows ! k ! t = int (count_list token_indices t) \<and>
                    float32_of_int (?rows ! k ! t) = float32_of_nat (count_list token_indices t) \<and>
                    (count_list token_indices t \<le> 16777216 \<longrightarrow>
                       float32_of_int (?rows ! k ! t) = real (count_list token_indices t))))"
      by blast
  qed
  from sparse dense len cells show ?thesis unfolding m_def n_def by blast
qed


theorem features_always_present_witness:
  "\<exists>self entries.
     GraphDataset_init float_of_example example_dir FORMAT_ADJEDGES True None = Inr self \<and>
     num_nodes self N_TYPE_NODE = 2 \<and>
     feature_entries self [0..<num_nodes self N_TYPE_NODE] = Inr entries"
proof -
  have chk: "case GraphDataset_init float_of_example example_dir FORMAT_ADJEDGES True None of
               Inl e \<Rightarrow> False
             | Inr ds \<Rightarrow> num_nodes ds N_TYPE_NODE = 2"
    by code_simp
  then obtain self where
    s: "GraphDataset_init float_of_example example_dir FORMAT_ADJEDGES True None = Inr self"
    and n: "num_nodes self N_TYPE_NODE = 2"
    by (auto split: sum.splits)
  from features_always_present[OF s] obtain entries where
    "feature_entries self [0..<num_nodes self N_TYPE_NODE] = Inr entries" by blast
  with s n show ?thesis by blast
qed

lemma split_from_repeated: "split_from [] (concat (replicate k ''a '')) = replicate k ''a''"
  by (induction k) (simp_all add: py_isspace_def)

lemma py_lower_repeated: "py_lower (concat (replicate k ''a '')) = concat (replicate k ''a '')"
  by (induction k) (simp_all add: py_lower_def py_lower_char_def)

lemma punc_re_sub_repeated: "punc_re_sub (concat (replicate k ''a '')) = concat (replicate k ''a '')"
  by (induction k) (simp_all add: punc_re_sub_def is_ascii_letter_def)

lemma tokenize_repeated:
  "cls t = EnglishWordTokenizer \<Longrightarrow> tokenize t (concat (replicate k ''a '')) = Inr (replicate k ''a'')"
  by (simp add: tokenize_def py_lower_repeated punc_re_sub_repeated py_split_def split_from_repeated)

lemma get_or_create_token_indices_seen:
  "map_of (token_id_index_dict t) x = Some i \<Longrightarrow>
   get_or_create_token_indices t (replicate k x) = (replicate k i, t)"
  by (induction k) (simp_all add: get_or_create_token_index_seen)

lemma get_or_create_token_indices_repeated:
  "get_or_create_token_indices (Tokenizer_init c) (replicate (Suc j) ''a'') =
     (replicate (Suc j) 0,
      \<lparr>cls = c, token_id_index_dict = [(''a'', 0)], token_index_id_dict = [(0, ''a'')]\<rparr>)"
proof -
  let ?t1 = "\<lparr>cls = c, token_id_index_dict = [(''a'', 0)], token_index_id_dict = [(0, ''a'')]\<rparr>"
  have 1: "get_or_create_token_index (Tokenizer_init c) ''a'' = (0, ?t1)"
    by (simp add: get_or_create_token_index_def Tokenizer_init_def num_tokens_def dict_len_def
          dict_set_def)
  have 2: "get_or_create_token_indices ?t1 (replicate j ''a'') = (replicate j 0, ?t1)"
    by (rule get_or_create_token_indices_seen) simp
  from 1 2 show ?thesis by simp
qed

lemma re_split_ws_1_repeated:
  "re_split_ws_1 (''n '' @ concat (replicate (Suc j) ''a '')) =
     [''n'', concat (replicate (Suc j) ''a '')]"
  by (simp add: re_split_ws_1_def py_isspace_def)

lemma count_list_replicate: "count_list (replicate k x) x = k"
  by (induction k) simp_all

lemma repeated_token_init:
  assumes "0 < k"
  shows "\<exists>ds. GraphDataset_init float_of (repeated_token_dir k) FORMAT_ADJEDGES flag None = Inr ds \<and>
              num_nodes ds N_TYPE_NODE = 1 \<and> num_tokens (tokenizer ds) = 1 \<and>
              get_node_attr ds N_TYPE_NODE 0 ''features'' = Inr (Token_indices (replicate k 0))"
proof -
  from assms obtain j where k: "k = Suc j" by (cases k) auto
  let ?dir = "repeated_token_dir (Suc j)"
  let ?f = "GraphDataset_fields ?dir FORMAT_ADJEDGES flag None"
  let ?line = "''n '' @ concat (replicate (Suc j) ''a '')"
  have t1: "tokenize (Tokenizer_init EnglishWordTokenizer) (concat (replicate (Suc j) ''a '')) =
              Inr (replicate (Suc j) ''a'')"
    by (rule tokenize_repeated) (simp add: Tokenizer_init_def)
  have tk: "tokenize_to_indices (Tokenizer_init EnglishWordTokenizer)
              (concat (replicate (Suc j) ''a '')) True =
            Inr (replicate (Suc j) 0,
                 \<lparr>cls = EnglishWordTokenizer, token_id_index_dict = [(''a'', 0)],
                  token_index_id_dict = [(0, ''a'')]\<rparr>)"
    by (simp only: tokenize_to_indices_def t1 sum.case if_True get_or_create_token_indices_repeated)
  have "\<exists>ds1. read_docs_line ?f ?line = Inr ds1 \<and>
           num_nodes ds1 N_TYPE_NODE = 1 \<and> num_tokens (tokenizer ds1) = 1 \<and>
           get_node_attr ds1 N_TYPE_NODE 0 ''features'' = Inr (Token_indices (replicate (Suc j) 0))"
    unfolding read_docs_line_def re_split_ws_1_repeated
    by (simp add: get_or_create_node_index_def GraphDataset_fields_def num_nodes_def dict_len_def
          dict_set_def tk set_node_attr_def get_node_attr_def dict_get_def num_tokens_def
          del: replicate.simps)
  then obtain ds1 where
    d: "read_docs_line ?f ?line = Inr ds1" "num_nodes ds1 N_TYPE_NODE = 1"
       "num_tokens (tokenizer ds1) = 1"
       "get_node_attr ds1 N_TYPE_NODE 0 ''features'' = Inr (Token_indices (replicate (Suc j) 0))"
    by blast
  have docs: "read_docs ?f = Inr ds1"
    using d(1) by (simp add: read_docs_def with_open_def GraphDataset_fields_simps
                     repeated_token_dir_def del: replicate.simps)
  from read_docs_line_frame[OF d(1)] have fr: "data_dir ds1 = ?dir" "data_format ds1 = FORMAT_ADJEDGES"
    by (simp_all add: GraphDataset_fields_simps)
  have labels: "read_labels ds1 = Inr ds1"
    using fr by (simp add: read_labels_def with_open_def repeated_token_dir_def)
  have struct: "read_structure float_of ds1 = Inr ds1"
    using fr by (simp add: read_structure_def read_adjedges_def with_open_def repeated_token_dir_def)
  have "GraphDataset_init float_of ?dir FORMAT_ADJEDGES flag None = Inr ds1"
    using docs labels struct by (simp add: GraphDataset_init_def)
  with d(2-4) k show ?thesis by blast
qed

lemma singleton_matrix:
  assumes "length rows = 1" and "length (rows ! 0) = 1"
  shows "rows = [[rows ! 0 ! 0]]"
proof -
  from assms(1) obtain r where r: "rows = [r]" by (cases rows) auto
  with assms(2) obtain x where "r = [x]" by (cases r) auto
  with r show ?thesis by simp
qed

lemma repeated_token_feature_matrix:
  assumes "0 < k"
  shows "GraphDataset_feature_matrix float_of (repeated_token_dir k) FORMAT_ADJEDGES flag None True True =
           Inr (Csr_matrix (1, 1) [[int k]]) \<and>
         GraphDataset_feature_matrix float_of (repeated_token_dir k) FORMAT_ADJEDGES flag None True False =
           Inr (Dense_float32 (1, 1) [[float32_of_nat k]])"
proof -
  from repeated_token_init[OF assms] obtain ds where
    d: "GraphDataset_init float_of (repeated_token_dir k) FORMAT_ADJEDGES flag None = Inr ds"
       "num_nodes ds N_TYPE_NODE = 1" "num_tokens (tokenizer ds) = 1"
       "get_node_attr ds N_TYPE_NODE 0 ''features'' = Inr (Token_indices (replicate k 0))"
    by blast
  have tok: "\<forall>t. (None :: Tokenizer option) = Some t \<longrightarrow> Tokenizer_wf t" by simp
  from feature_matrix_of_constructed[OF d(1) tok] d(2,3) obtain rows where
    r: "feature_matrix ds True True = Inr (Csr_matrix (1, 1) rows)"
       "feature_matrix ds True False = Inr (Dense_float32 (1, 1) (map (map float32_of_int) rows))"
       "length rows = 1"
       "\<forall>n<1. length (rows ! n) = 1 \<and>
          (\<exists>token_indices.
             get_node_attr ds N_TYPE_NODE n ''features'' = Inr (Token_indices token_indices) \<and>
             (\<forall>t<1. rows ! n ! t = int (count_list token_indices t) \<and>
                float32_of_int (rows ! n ! t) = float32_of_nat (count_list token_indices t) \<and>
                (count_list token_indices t \<le> 16777216 \<longrightarrow>
                   float32_of_int (rows ! n ! t) = real (count_list token_indices t))))"
    by auto
  from r(4) d(4) have c: "length (rows ! 0) = 1" "rows ! 0 ! 0 = int k"
    by (auto simp: count_list_replicate)
  from singleton_matrix[OF r(3) c(1)] c(2) have rows: "rows = [[int k]]" by simp
  from d(1) r(1,2) rows show ?thesis
    by (simp add: GraphDataset_feature_matrix_def float32_of_int_nat)
qed

text \<open>
  C5, as the claim states it, fails on the dense matrix. A document that repeats one token
  \<open>2 ^ 24 + 1 = 16777217\<close> times gives the sparse cell 16777217; \<open>astype(np.float32)\<close> rounds
  it, and the dense cell is 16777216.
\<close>

theorem feature_matrix_counts_counterexample:
  "GraphDataset_feature_matrix float_of_example (repeated_token_dir 16777217) FORMAT_ADJEDGES True None
       True True =
     Inr (Csr_matrix (1, 1) [[16777217]]) \<and>
   GraphDataset_feature_matrix float_of_example (repeated_token_dir 16777217) FORMAT_ADJEDGES True None
       True False =
     Inr (Dense_float32 (1, 1) [[16777216]])"
proof -
  have "(0::nat) < 16777217" by simp
  from repeated_token_feature_matrix[OF this, of float_of_example True]
  show ?thesis by (simp add: float32_of_nat_rounds)
qed


text \<open>
  C5, amended. For every constructed dataset whose tokenizer was a new one, or one in a state its own
  methods produce, \<open>feature_matrix(bag_of_words=True)\<close> returns a matrix of shape
  \<open>(num_nodes, num_tokens)\<close> whose cell \<open>(n, t)\<close> is the number of occurrences of \<open>t\<close> in the
  \<open>features\<close> of node \<open>n\<close> (so zero where \<open>t\<close> does not occur, and the repeat count where it
  repeats). With \<open>sparse=False\<close> the cells come back rounded to float32: a count of at most
  \<open>2 ^ 24 = 16777216\<close> comes back as itself.
\<close>

theorem feature_matrix_counts:
  assumes init: "GraphDataset_init float_of dir fmt flag tok = Inr self"
    and tok: "\<forall>t. tok = Some t \<longrightarrow> Tokenizer_wf t"
  shows "\<exists>rows.
           feature_matrix self True True =
             Inr (Csr_matrix (num_nodes self N_TYPE_NODE, num_tokens (tokenizer self)) rows) \<and>
           feature_matrix self True False =
             Inr (Dense_float32 (num_nodes self N_TYPE_NODE, num_tokens (tokenizer self))
                    (map (map float32_of_int) rows)) \<and>
           length rows = num_nodes self N_TYPE_NODE \<and>
           (\<forall>n<num_nodes self N_TYPE_NODE.
              length (rows ! n) = num_tokens (tokenizer self) \<and>
              (\<exists>token_indices.
                 get_node_attr self N_TYPE_NODE n ''features'' = Inr (Token_indices token_indices) \<and>
                 (\<forall>t<num_tokens (tokenizer self).
                    rows ! n ! t = int (count_list token_indices t) \<and>
                    float32_of_int (rows ! n ! t) = float32_of_nat (count_list token_indices t) \<and>
                    (count_list token_indices t \<le> 16777216 \<longrightarrow>
                       float32_of_int (rows ! n ! t) = real (count_list token_indices t)))))"
  using init tok by (rule feature_matrix_of_constructed)

theorem feature_matrix_counts_witness:
  "\<exists>self.
     GraphDataset_init float_of_example example_dir FORMAT_ADJEDGES True None = Inr self \<and>
     get_node_attr self N_TYPE_NODE 0 ''features'' = Inr (Token_indices [0, 1, 2, 0]) \<and>
     feature_matrix self True True =
       Inr (Csr_matrix (2, 5) [[2, 1, 1, 0, 0], [1, 0, 0, 1, 1]]) \<and>
     feature_matrix self True False =
       Inr (Dense_float32 (2, 5) [[2, 1, 1, 0, 0], [1, 0, 0, 1, 1]])"
proof -
  have chk: "case GraphDataset_init float_of_example example_dir FORMAT_ADJEDGES True None of
               Inl e \<Rightarrow> False
             | Inr ds \<Rightarrow>
                 get_node_attr ds N_TYPE_NODE 0 ''features'' = Inr (Token_indices [0, 1, 2, 0]) \<and>
                 feature_matrix ds True True =
                   Inr (Csr_matrix (2, 5) [[2, 1, 1, 0, 0], [1, 0, 0, 1, 1]])"
    by code_simp
  then obtain self where
    s: "GraphDataset_init float_of_example example_dir FORMAT_ADJEDGES True None = Inr self"
    and a: "get_node_attr self N_TYPE_NODE 0 ''features'' = Inr (Token_indices [0, 1, 2, 0])"
    and m: "feature_matrix self True True =
              Inr (Csr_matrix (2, 5) [[2, 1, 1, 0, 0], [1, 0, 0, 1, 1]])"
    by (auto split: sum.splits)
  have tok: "\<forall>t. (None :: Tokenizer option) = Some t \<longrightarrow> Tokenizer_wf t" by simp
  from feature_matrix_counts[OF s tok] obtain rows where
    r: "feature_matrix self True True =
          Inr (Csr_matrix (num_nodes self N_TYPE_NODE, num_tokens (tokenizer self)) rows)"
       "feature_matrix self True False =
          Inr (Dense_float32 (num_nodes self N_TYPE_NODE, num_tokens (tokenizer self))
                 (map (map float32_of_int) rows))"
    by blast
  from r(1) m have "num_nodes self N_TYPE_NODE = 2" "num_tokens (tokenizer self) = 5"
    "rows = [[2, 1, 1, 0, 0], [1, 0, 0, 1, 1]]" by simp_all
  with r(2) have "feature_matrix self True False =
       Inr (Dense_float32 (2, 5) [[2, 1, 1, 0, 0], [1, 0, 0, 1, 1]])"
    by (simp add: float32_of_int_def float32_of_nat_def)
  with s a m show ?thesis by blast
qed

end
